theory Spec2Isabelle
  imports Complex_Main "HOL-Library.AList" "HOL-Library.Char_ord" "HOL-Library.List_Lexorder"
begin

section \<open>JavaScript values used by the benchmarking script\<close>

subsection \<open>Numbers\<close>

text \<open>
  A JavaScript number is \<open>NaN\<close>, one of the two infinities, or a finite value. Finite
  values are kept as exact rationals: rounding to binary64, overflow and the sign of zero
  are outside this model. Every operation below follows the arithmetic of the language
  on the four cases.
\<close>

datatype number = NaN | PInf | NInf | Fin rat

definition truthy :: "number \<Rightarrow> bool" where
  "truthy x = (x \<noteq> NaN \<and> x \<noteq> Fin 0)"

fun jneg :: "number \<Rightarrow> number" where
  "jneg NaN = NaN"
| "jneg PInf = NInf"
| "jneg NInf = PInf"
| "jneg (Fin a) = Fin (- a)"

fun jadd :: "number \<Rightarrow> number \<Rightarrow> number" where
  "jadd NaN _ = NaN"
| "jadd _ NaN = NaN"
| "jadd PInf NInf = NaN"
| "jadd NInf PInf = NaN"
| "jadd PInf _ = PInf"
| "jadd NInf _ = NInf"
| "jadd (Fin a) PInf = PInf"
| "jadd (Fin a) NInf = NInf"
| "jadd (Fin a) (Fin b) = Fin (a + b)"

definition jsub :: "number \<Rightarrow> number \<Rightarrow> number" where
  "jsub a b = jadd a (jneg b)"

text \<open>The sign of an infinite product or quotient; a finite zero counts as positive.\<close>

definition signed_inf :: "bool \<Rightarrow> number" where
  "signed_inf negative = (if negative then NInf else PInf)"

fun jmul :: "number \<Rightarrow> number \<Rightarrow> number" where
  "jmul NaN _ = NaN"
| "jmul _ NaN = NaN"
| "jmul PInf PInf = PInf"
| "jmul PInf NInf = NInf"
| "jmul NInf PInf = NInf"
| "jmul NInf NInf = PInf"
| "jmul PInf (Fin b) = (if b = 0 then NaN else signed_inf (b < 0))"
| "jmul NInf (Fin b) = (if b = 0 then NaN else signed_inf (0 < b))"
| "jmul (Fin a) PInf = (if a = 0 then NaN else signed_inf (a < 0))"
| "jmul (Fin a) NInf = (if a = 0 then NaN else signed_inf (0 < a))"
| "jmul (Fin a) (Fin b) = Fin (a * b)"

fun jdiv :: "number \<Rightarrow> number \<Rightarrow> number" where
  "jdiv NaN _ = NaN"
| "jdiv _ NaN = NaN"
| "jdiv PInf (Fin b) = signed_inf (b < 0)"
| "jdiv NInf (Fin b) = signed_inf (0 \<le> b)"
| "jdiv PInf _ = NaN"
| "jdiv NInf _ = NaN"
| "jdiv (Fin a) PInf = Fin 0"
| "jdiv (Fin a) NInf = Fin 0"
| "jdiv (Fin a) (Fin b) =
     (if b = 0 then (if a = 0 then NaN else signed_inf (a < 0)) else Fin (a / b))"

fun Math_floor :: "number \<Rightarrow> number" where
  "Math_floor (Fin a) = Fin (of_int \<lfloor>a\<rfloor>)"
| "Math_floor x = x"

fun Math_min :: "number \<Rightarrow> number \<Rightarrow> number" where
  "Math_min NaN _ = NaN"
| "Math_min _ NaN = NaN"
| "Math_min NInf _ = NInf"
| "Math_min _ NInf = NInf"
| "Math_min PInf b = b"
| "Math_min a PInf = a"
| "Math_min (Fin a) (Fin b) = Fin (min a b)"

text \<open>\<open>a !== b\<close> on numbers: \<open>NaN\<close> differs from everything, itself included.\<close>

definition strict_ne :: "number \<Rightarrow> number \<Rightarrow> bool" where
  "strict_ne a b = (a = NaN \<or> b = NaN \<or> a \<noteq> b)"

definition of_length :: "'a list \<Rightarrow> number" where
  "of_length xs = Fin (of_nat (length xs))"

subsection \<open>Strings\<close>

text \<open>
  \<open>s.split(c)\<close> for a one-character separator: the pieces between the separators, at
  least one piece. \<open>parts.join(sep)\<close> puts the separator back between the pieces.
\<close>

fun split :: "char \<Rightarrow> string \<Rightarrow> string list" where
  "split c [] = [[]]"
| "split c (x # xs) =
     (if x = c then [] # split c xs
      else (case split c xs of [] \<Rightarrow> [[x]] | p # ps \<Rightarrow> (x # p) # ps))"

fun join :: "string \<Rightarrow> string list \<Rightarrow> string" where
  "join sep [] = []"
| "join sep [p] = p"
| "join sep (p # q # ps) = p @ sep @ join sep (q # ps)"

text \<open>\<open>parts.pop()\<close> and \<open>parts[0]\<close>: \<open>undefined\<close> on an empty array.\<close>

definition pop :: "'a list \<Rightarrow> 'a option" where
  "pop xs = (case xs of [] \<Rightarrow> None | _ \<Rightarrow> Some (last xs))"

definition first :: "'a list \<Rightarrow> 'a option" where
  "first xs = (case xs of [] \<Rightarrow> None | x # _ \<Rightarrow> Some x)"

subsection \<open>parseFloat\<close>

text \<open>
  \<open>parseFloat\<close> skips leading white space and reads the longest prefix that is a decimal
  literal: an optional sign, then \<open>Infinity\<close> or digits with an optional fraction and
  an optional exponent. Without such a prefix the result is \<open>NaN\<close>.
\<close>

definition is_digit :: "char \<Rightarrow> bool" where
  "is_digit c = (CHR ''0'' \<le> c \<and> c \<le> CHR ''9'')"

definition is_space :: "char \<Rightarrow> bool" where
  "is_space c = (c \<in> set [CHR '' '', CHR 0x09, CHR 0x0A, CHR 0x0B, CHR 0x0C, CHR 0x0D])"

definition digit_val :: "char \<Rightarrow> nat" where
  "digit_val c = of_char c - of_char CHR ''0''"

definition digits_val :: "string \<Rightarrow> nat" where
  "digits_val ds = foldl (\<lambda>n c. 10 * n + digit_val c) 0 ds"

definition starts_with :: "string \<Rightarrow> string \<Rightarrow> bool" where
  "starts_with p s = (take (length p) s = p)"

definition parse_exponent :: "string \<Rightarrow> int" where
  "parse_exponent s =
     (case s of
        [] \<Rightarrow> 0
      | e # r \<Rightarrow>
          if e = CHR ''e'' \<or> e = CHR ''E'' then
            (let neg = starts_with ''-'' r;
                 r' = (if starts_with ''-'' r \<or> starts_with ''+'' r then tl r else r);
                 ds = takeWhile is_digit r'
             in if ds = [] then 0
                else if neg then - int (digits_val ds) else int (digits_val ds))
          else 0)"

definition parse_unsigned :: "string \<Rightarrow> number" where
  "parse_unsigned s =
     (if starts_with ''Infinity'' s then PInf
      else
        (let ip = takeWhile is_digit s;
             r1 = dropWhile is_digit s;
             fp = (if starts_with ''.'' r1 then takeWhile is_digit (tl r1) else []);
             r2 = (if starts_with ''.'' r1 then dropWhile is_digit (tl r1) else r1)
         in if ip = [] \<and> fp = [] then NaN
            else Fin ((of_nat (digits_val ip) + of_nat (digits_val fp) / 10 ^ length fp)
                       * 10 powi parse_exponent r2)))"

definition parseFloat :: "string \<Rightarrow> number" where
  "parseFloat s =
     (let t = dropWhile is_space s
      in if starts_with ''-'' t then jneg (parse_unsigned (tl t))
         else if starts_with ''+'' t then parse_unsigned (tl t)
         else parse_unsigned t)"


section \<open>Data model\<close>

text \<open>
  \<open>ImagePackage\<close> is an image on disk with its pixel dimensions. A cropped entry holds
  an \<open>original\<close> and a \<open>downscaled\<close> image; the entries that \<open>Dataset.getFiles\<close>
  returns add \<open>fileName\<close>; a \<open>ProcessedFileDefinition\<close> adds the \<open>cropped\<close> table.
  An object is an association list in the order its keys were first written;
  \<open>obj[k]\<close> is \<open>map_of obj k\<close> and \<open>undefined\<close> is \<open>None\<close>.
\<close>

record DatasetDefinition =
  definitionName :: string
  definitionPath :: "string option"

record BenchmarkResult =
  ssim :: number
  psnr :: number

record ImagePackage =
  path :: string
  width :: number
  height :: number

record ImagePair =
  original :: ImagePackage
  downscaled :: ImagePackage

record FileTriple = ImagePair +
  fileName :: string

record ProcessedFileDefinition = FileTriple +
  cropped :: "(number \<times> ImagePair) list"

type_synonym DatasetDatabase = "(string \<times> (number \<times> ProcessedFileDefinition) list) list"

record Dataset =
  datasetDefinition :: DatasetDefinition
  database :: DatasetDatabase

datatype error =
    DatasetNotProcessed string
  | NoNameProvided
  | NoDimensionsFound string
  | NoCroppingExists number
  | DimensionsMismatch number number number number
  | NoResponse
  | NoMetricFound
  | TypeError
  | Rejected string

text \<open>
  \<open>DatasetNotProcessed n\<close> is the error of \<open>initialize\<close> whose message reads ``The
  dataset n has not been fully processed, and you've neglected to pass a path to the
  dataset. Please pass a valid path so that the dataset can be processed and cached.''
  \<open>TypeError\<close> is the error of reading a property of \<open>undefined\<close>; \<open>Rejected\<close> is
  a rejection that comes from a library, labelled by the call that failed.
\<close>

section \<open>The outside world\<close>

datatype dirent = File string | Directory string "dirent list"

datatype sharp_call =
    FlattenResizeCover string number number
  | ResizeBuffer string number number
  | Extract string number number number number

text \<open>
  The three uses of the image library: \<open>FlattenResizeCover p w h\<close> flattens the file
  \<open>p\<close> onto white and resizes it with fit \<open>cover\<close>; \<open>ResizeBuffer p w h\<close> resizes
  the buffer that is saved under \<open>p\<close>; \<open>Extract p w h top left\<close> cuts a region out of the
  file \<open>p\<close>.
\<close>

datatype metric = SSIM | PSNR

record process =
  stdout_chunks :: "string list"
  stderr_chunks :: "string list"
  exit_error :: "string option"

text \<open>
  What the script cannot decide by itself is a parameter: the path functions of the
  platform, the text of a number in a template literal, the directory tree under a path,
  the dimensions \<open>image-size\<close> reports (\<open>None\<close> when it reports none), whether a call of
  the image library succeeds, and what a shell command does when it runs. For the
  benchmark it also gives the cached database file of a dataset (\<open>None\<close> when it
  cannot be read or parsed), the temporary directory, the definition of a model loaded by
  name (or the rejection of the load), whether the model upscales a file, and the
  dimensions \<open>image-size\<close> reports for a file written while that model is benchmarked.
  The answers of the world are the same throughout a run.
\<close>

record ModelDefinition =
  model_scale :: number
  packageName :: "string option"

record world =
  dirname :: string
  path_resolve :: "string list \<Rightarrow> string"
  path_join :: "string \<Rightarrow> string \<Rightarrow> string"
  numberToString :: "number \<Rightarrow> string"
  readdirSync :: "string \<Rightarrow> dirent list"
  sizeOf :: "string \<Rightarrow> (number \<times> number) option"
  sharp :: "sharp_call \<Rightarrow> bool"
  exec :: "string \<Rightarrow> process"
  readDatabase :: "string \<Rightarrow> DatasetDatabase option"
  makeTmpDir :: string
  loadModel :: "string \<Rightarrow> error + ModelDefinition"
  upscaler :: "string \<Rightarrow> string \<Rightarrow> bool"
  upscaledSizeOf :: "string \<Rightarrow> string \<Rightarrow> (number \<times> number) option"

datatype settle_call = Resolve | Reject error

datatype event =
    ReadDir string
  | SizeOf string
  | Sharp sharp_call
  | WriteImage string
  | WriteDatabase string DatasetDatabase
  | RenderProgressBar number number
  | Upscale string string
  | WriteUpscaled string
  | Compare metric string string string
  | MakeTmpDir string
  | RmSync string
  | ConsoleLog "string option" number string BenchmarkResult
  | Settle settle_call

text \<open>
  A step of the script runs on a state, gives a value or throws, and leaves the state as
  it is at that point together with the effects it had on the outside, in order.
\<close>

type_synonym ('s, 'a) eff = "'s \<Rightarrow> (error + 'a) \<times> 's \<times> event list"

definition returnE :: "'a \<Rightarrow> ('s, 'a) eff" where
  "returnE x = (\<lambda>s. (Inr x, s, []))"

definition throwE :: "error \<Rightarrow> ('s, 'a) eff" where
  "throwE e = (\<lambda>s. (Inl e, s, []))"

definition emit :: "event list \<Rightarrow> ('s, unit) eff" where
  "emit evs = (\<lambda>s. (Inr (), s, evs))"

definition bindE :: "('s, 'a) eff \<Rightarrow> ('a \<Rightarrow> ('s, 'b) eff) \<Rightarrow> ('s, 'b) eff" where
  "bindE m f = (\<lambda>s.
     case m s of
       (Inl e, s1, evs) \<Rightarrow> (Inl e, s1, evs)
     | (Inr x, s1, evs) \<Rightarrow> (case f x s1 of (r, s2, evs') \<Rightarrow> (r, s2, evs @ evs')))"

definition liftE :: "error + 'a \<Rightarrow> ('s, 'a) eff" where
  "liftE r = (\<lambda>s. (r, s, []))"

text \<open>
  \<open>for await (const _ of asyncPool(k, items, fn)) body\<close>, as one worker: the items
  are handled in order, the loop body runs after each, and the first rejection ends the
  loop. The body is given the number of items finished so far.
\<close>

fun asyncPool :: "('a \<Rightarrow> ('s, unit) eff) \<Rightarrow> (nat \<Rightarrow> event list) \<Rightarrow> nat \<Rightarrow> 'a list \<Rightarrow> ('s, unit) eff" where
  "asyncPool fn body i [] = returnE ()"
| "asyncPool fn body i (x # xs) =
     bindE (fn x) (\<lambda>_. bindE (emit (body (Suc i))) (\<lambda>_. asyncPool fn body (Suc i) xs))"

text \<open>\<open>array.map(f)\<close> with a callback that may throw.\<close>

fun mapE :: "('a \<Rightarrow> error + 'b) \<Rightarrow> 'a list \<Rightarrow> error + 'b list" where
  "mapE f [] = Inr []"
| "mapE f (x # xs) =
     (case f x of
        Inl e \<Rightarrow> Inl e
      | Inr y \<Rightarrow> (case mapE f xs of Inl e \<Rightarrow> Inl e | Inr ys \<Rightarrow> Inr (y # ys)))"

section \<open>Utility functions\<close>

definition ROOT_DIR :: "world \<Rightarrow> string" where
  "ROOT_DIR w = path_resolve w [dirname w, ''../../..'']"

definition CACHE_DIR :: "world \<Rightarrow> string" where
  "CACHE_DIR w = path_resolve w [ROOT_DIR w, ''./tmp/datasets'']"

fun getFiles_dirent :: "(string \<Rightarrow> string \<Rightarrow> string) \<Rightarrow> dirent \<Rightarrow> string list" where
  "getFiles_dirent pjoin (Directory nm sub) =
     map (pjoin nm) (concat (map (getFiles_dirent pjoin) sub))"
| "getFiles_dirent pjoin (File nm) =
     (case pop (split CHR ''.'' nm) of
        None \<Rightarrow> []
      | Some ext \<Rightarrow> if ext \<in> set [''jpg'', ''jpeg'', ''png''] then [nm] else [])"

definition getFiles :: "world \<Rightarrow> string \<Rightarrow> string list" where
  "getFiles w dir = concat (map (getFiles_dirent (path_join w)) (readdirSync w dir))"

definition avg :: "number list \<Rightarrow> number" where
  "avg arr = jdiv (foldl (\<lambda>sum num. jadd sum num) (Fin 0) arr) (of_length arr)"

definition getSize :: "(string \<Rightarrow> (number \<times> number) option) \<Rightarrow> string \<Rightarrow> ('s, number \<times> number) eff" where
  "getSize sizeOf_now file =
     bindE (emit [SizeOf file]) (\<lambda>_.
       case sizeOf_now file of
         None \<Rightarrow> throwE (NoDimensionsFound file)
       | Some (wd, ht) \<Rightarrow>
           if \<not> truthy wd \<or> \<not> truthy ht then throwE (NoDimensionsFound file)
           else returnE (wd, ht))"

text \<open>
  \<open>callExec\<close> takes a command, options and one optional listener, which it registers
  for the data of the standard output; the standard error goes to the terminal. It
  rejects with the message of the error when the command fails. The listener is a
  function on what the caller accumulates.
\<close>

definition callExec :: "world \<Rightarrow> string \<Rightarrow> (string \<Rightarrow> 'acc \<Rightarrow> 'acc) option \<Rightarrow> 'acc \<Rightarrow> (string + unit) \<times> 'acc" where
  "callExec w cmd stdout acc =
     (let p = exec w cmd;
          acc' = (case stdout of Some listener \<Rightarrow> fold listener (stdout_chunks p) acc | None \<Rightarrow> acc)
      in (case exit_error p of Some msg \<Rightarrow> Inl msg | None \<Rightarrow> Inr (), acc'))"

text \<open>
  \<open>runScript\<close> passes two listeners, one for each stream; \<open>callExec\<close> has no fourth
  parameter, so the second listener is never registered. The accumulator is the pair
  \<open>(stdout, stderr)\<close>, and the result is \<open>[stdout, stderr, err]\<close>.
\<close>

definition runScript :: "world \<Rightarrow> string \<Rightarrow> string \<times> string \<times> string" where
  "runScript w cmd =
     (case callExec w cmd (Some (\<lambda>data (out, err). (out @ data, err))) ([], []) of
        (Inl msg, (out, err)) \<Rightarrow> (out, err, msg)
      | (Inr _, (out, err)) \<Rightarrow> (out, err, []))"

section \<open>Dataset\<close>

text \<open>
  \<open>entry db filename scale\<close> is \<open>db[filename]?.[scale]\<close>. \<open>spread old new\<close> is
  \<open>{...old, ...new}\<close>: the keys of \<open>new\<close> are written over \<open>old\<close>.
\<close>

definition entry :: "DatasetDatabase \<Rightarrow> string \<Rightarrow> number \<Rightarrow> ProcessedFileDefinition option" where
  "entry db filename scale =
     (case map_of db filename of None \<Rightarrow> None | Some scales \<Rightarrow> map_of scales scale)"

definition spread :: "('k \<times> 'v) list \<Rightarrow> ('k \<times> 'v) list \<Rightarrow> ('k \<times> 'v) list" where
  "spread old new = fold (\<lambda>(k, v). AList.update k v) new old"

definition getWritableName :: "world \<Rightarrow> Dataset \<Rightarrow> string \<Rightarrow> error + string" where
  "getWritableName w d nm =
     (let folder = definitionName (datasetDefinition d);
          parts = split CHR ''.'' nm
      in if length parts < 1 then Inl NoNameProvided
         else
           (let formattedName = join ''-'' (split CHR ''/'' (join ''.'' parts))
            in Inr (path_resolve w [CACHE_DIR w, folder, formattedName])))"

definition saveDatabase :: "world \<Rightarrow> string option \<Rightarrow> (number \<times> ProcessedFileDefinition) list \<Rightarrow> (Dataset, unit) eff" where
  "saveDatabase w key payload = (\<lambda>d.
     let d1 = (case key of
                 None \<Rightarrow> d
               | Some k \<Rightarrow>
                   if k = [] then d
                   else d\<lparr>database :=
                          AList.update k
                            (spread (case map_of (database d) k of None \<Rightarrow> [] | Some old \<Rightarrow> old) payload)
                            (database d)\<rparr>)
     in case getWritableName w d1 ''database.json'' of
          Inl e \<Rightarrow> (Inl e, d1, [])
        | Inr filename \<Rightarrow> (Inr (), d1, [WriteDatabase filename (database d1)]))"

definition saveImage :: "world \<Rightarrow> string \<Rightarrow> (Dataset, string) eff" where
  "saveImage w filename = (\<lambda>d.
     case getWritableName w d filename of
       Inl e \<Rightarrow> (Inl e, d, [])
     | Inr nm \<Rightarrow> (let originalPath = nm @ ''.png'' in (Inr originalPath, d, [WriteImage originalPath])))"

definition sharp_run :: "world \<Rightarrow> sharp_call \<Rightarrow> ('s, unit) eff" where
  "sharp_run w c =
     bindE (emit [Sharp c]) (\<lambda>_. if sharp w c then returnE () else throwE (Rejected ''sharp''))"

definition getDims :: "(number \<Rightarrow> number) \<Rightarrow> number list \<Rightarrow> number list" where
  "getDims fn nums = map fn nums"

definition processOriginal :: "world \<Rightarrow> number \<Rightarrow> string \<Rightarrow> string \<Rightarrow> (Dataset, unit) eff" where
  "processOriginal w scale filePath filename = (\<lambda>d.
     if entry (database d) filename scale \<noteq> None then returnE () d
     else
       bindE (getSize (sizeOf w) filePath) (\<lambda>(wd, ht).
         let dims = getDims (\<lambda>n. jmul (Math_floor (jdiv n scale)) scale) [wd, ht];
             originalWidth = dims ! 0;
             originalHeight = dims ! 1
         in
         bindE (sharp_run w (FlattenResizeCover filePath originalWidth originalHeight)) (\<lambda>_.
         bindE (saveImage w (filename @ ''-scale-'' @ numberToString w scale @ ''-original'')) (\<lambda>originalPath.
           let ddims = getDims (\<lambda>n. jdiv n scale) [wd, ht];
               downscaledWidth = ddims ! 0;
               downscaledHeight = ddims ! 1
           in
           bindE (sharp_run w (ResizeBuffer originalPath downscaledWidth downscaledHeight)) (\<lambda>_.
           bindE (saveImage w (filename @ ''-scale-'' @ numberToString w scale @ ''-downscaled'')) (\<lambda>downscaledPath.
             saveDatabase w (Some filename)
               [(scale,
                 \<lparr>original = \<lparr>path = originalPath, width = originalWidth, height = originalHeight\<rparr>,
                  downscaled = \<lparr>path = downscaledPath, width = downscaledWidth, height = downscaledHeight\<rparr>,
                  fileName = filename,
                  cropped = []\<rparr>)]))))) d)"

text \<open>
  The crop of \<open>processFile\<close>, run when \<open>cropped\<close> is truthy and the entry has no crop
  of that size yet.
\<close>

definition processCrop :: "world \<Rightarrow> number \<Rightarrow> string \<Rightarrow> number \<Rightarrow> ProcessedFileDefinition \<Rightarrow> (Dataset, unit) eff" where
  "processCrop w scale filename c e =
     (let originalPath = path (original e);
          originalHeight = height (original e);
          originalWidth = width (original e);
          originalCroppedWidth = c;
          originalCroppedHeight = c
      in
      bindE (sharp_run w (Extract originalPath originalCroppedWidth originalCroppedHeight
               (jsub (jdiv originalHeight (Fin 2)) (jdiv originalCroppedHeight (Fin 2)))
               (jsub (jdiv originalWidth (Fin 2)) (jdiv originalCroppedWidth (Fin 2))))) (\<lambda>_.
      bindE (saveImage w (filename @ ''-scale-'' @ numberToString w scale @ ''-cropped-''
               @ numberToString w c @ ''-original'')) (\<lambda>originalCroppedPath.
        let cdims = getDims (\<lambda>n. jdiv n scale) [originalCroppedWidth, originalCroppedHeight];
            downscaledCroppedWidth = cdims ! 0;
            downscaledCroppedHeight = cdims ! 1
        in
        bindE (sharp_run w (ResizeBuffer originalCroppedPath downscaledCroppedWidth downscaledCroppedHeight)) (\<lambda>_.
        bindE (saveImage w (filename @ ''-scale-'' @ numberToString w scale @ ''-cropped-''
                 @ numberToString w c @ ''-downscaled'')) (\<lambda>downscaledCroppedPath.
          (\<lambda>d. case entry (database d) filename scale of
                  None \<Rightarrow> throwE TypeError d
                | Some cur \<Rightarrow>
                    saveDatabase w (Some filename)
                      [(scale,
                        cur\<lparr>cropped :=
                          spread (cropped cur)
                            [(c,
                              \<lparr>original = \<lparr>path = originalCroppedPath, width = originalCroppedWidth,
                                           height = originalCroppedHeight\<rparr>,
                               downscaled = \<lparr>path = downscaledCroppedPath, width = downscaledCroppedWidth,
                                             height = downscaledCroppedHeight\<rparr>\<rparr>)]\<rparr>)] d))))))"

definition prepare_processFile :: "world \<Rightarrow> number \<Rightarrow> number option \<Rightarrow> string \<times> string \<Rightarrow> (Dataset, unit) eff" where
  "prepare_processFile w scale crp = (\<lambda>(filename, filePath) d.
     if (case entry (database d) filename scale of
           None \<Rightarrow> False
         | Some e \<Rightarrow> (case crp of None \<Rightarrow> True | Some c \<Rightarrow> map_of (cropped e) c \<noteq> None))
     then returnE () d
     else
       bindE (processOriginal w scale filePath filename) (\<lambda>_ d1.
         case entry (database d1) filename scale of
           None \<Rightarrow> throwE TypeError d1
         | Some e \<Rightarrow>
             (case crp of
                None \<Rightarrow> returnE () d1
              | Some c \<Rightarrow>
                  if truthy c \<and> map_of (cropped e) c = None then processCrop w scale filename c e d1
                  else returnE () d1)) d)"

text \<open>
  \<open>prepare\<close> hands the files to a pool of twenty workers. A step of \<open>processFile\<close>
  reads and writes the entry of its own file name only, and the steps are run here one
  after the other, in the order of the files.
\<close>

definition prepare :: "world \<Rightarrow> (string \<times> string) list \<Rightarrow> number \<Rightarrow> (nat \<Rightarrow> event list) \<Rightarrow> number option \<Rightarrow> (Dataset, unit) eff" where
  "prepare w files scale callback crp = asyncPool (prepare_processFile w scale crp) callback 0 files"

definition initialize :: "world \<Rightarrow> number \<Rightarrow> number option \<Rightarrow> (Dataset, unit) eff" where
  "initialize w scale crp = (\<lambda>d.
     case definitionPath (datasetDefinition d) of
       None \<Rightarrow> throwE (DatasetNotProcessed (definitionName (datasetDefinition d))) d
     | Some dPath \<Rightarrow>
         if dPath = [] then throwE (DatasetNotProcessed (definitionName (datasetDefinition d))) d
         else
           (let files = map (\<lambda>file. (file, path_resolve w [dPath, file])) (getFiles w dPath);
                total = of_length files
            in bindE (emit [ReadDir dPath, RenderProgressBar (Fin 0) total]) (\<lambda>_.
               bindE (prepare w files scale (\<lambda>i. [RenderProgressBar (Fin (of_nat i)) total]) crp) (\<lambda>_.
               saveDatabase w None [])) d))"

text \<open>
  \<open>Dataset.getFiles\<close> sorts the keys of the database and maps them with a callback,
  here \<open>getFiles_entry\<close>.
\<close>

definition getFiles_entry :: "Dataset \<Rightarrow> number \<Rightarrow> number option \<Rightarrow> string \<Rightarrow> error + FileTriple" where
  "getFiles_entry d scale crp fn =
     (case entry (database d) fn scale of
        None \<Rightarrow> Inl TypeError
      | Some file \<Rightarrow>
          (case crp of
             None \<Rightarrow> Inr \<lparr>original = original file, downscaled = downscaled file, fileName = fileName file\<rparr>
           | Some c \<Rightarrow>
               if truthy c then
                 (case map_of (cropped file) c of
                    None \<Rightarrow> Inl (NoCroppingExists c)
                  | Some cr \<Rightarrow>
                      Inr \<lparr>original = original cr, downscaled = downscaled cr, fileName = fileName file\<rparr>)
               else Inr \<lparr>original = original file, downscaled = downscaled file, fileName = fileName file\<rparr>))"

definition Dataset_getFiles :: "Dataset \<Rightarrow> number \<Rightarrow> number option \<Rightarrow> error + FileTriple list" where
  "Dataset_getFiles d scale crp =
     (let fileNames = sort (map fst (database d))
      in mapE (getFiles_entry d scale crp) fileNames)"

section \<open>Benchmarker\<close>

text \<open>
  \<open>calculatePerformance\<close> runs the comparison and reads the second entry of what
  \<open>runScript\<close> resolves to. \<open>calculatePerformance_result\<close> is what it does with that
  array; all three entries are strings, so the test \<open>typeof out !== 'string'\<close> never
  holds.
\<close>

definition metric_name :: "metric \<Rightarrow> string" where
  "metric_name m = (case m of SSIM \<Rightarrow> ''ssim'' | PSNR \<Rightarrow> ''psnr'')"

definition calculatePerformance_result :: "string \<times> string \<times> string \<Rightarrow> error + number" where
  "calculatePerformance_result = (\<lambda>(_, out, _).
     case first (split CHR '' '' out) of
       None \<Rightarrow> Inl NoMetricFound
     | Some v \<Rightarrow> if v = [] then Inl NoMetricFound else Inr (parseFloat v))"

definition calculatePerformance :: "world \<Rightarrow> string \<Rightarrow> string \<Rightarrow> string \<Rightarrow> metric \<Rightarrow> error + number" where
  "calculatePerformance w upscaledPath originalPath diffPath m =
     calculatePerformance_result
       (runScript w (''magick compare -metric '' @ metric_name m @ '' '' @ upscaledPath @ '' ''
                     @ originalPath @ '' '' @ diffPath))"

text \<open>
  The arrays \<open>ssim\<close> and \<open>psnr\<close> of one (model, dataset) pair are the state of its loop
  over the files. The loop takes the metric calculator as a parameter \<open>calc\<close>, so that
  it can be run with \<open>calculatePerformance\<close> or with stub values.
\<close>

record scores =
  ssim_arr :: "number list"
  psnr_arr :: "number list"

type_synonym calculator = "string \<Rightarrow> string \<Rightarrow> string \<Rightarrow> metric \<Rightarrow> error + number"

definition upscale :: "world \<Rightarrow> string \<Rightarrow> string \<Rightarrow> ('s, unit) eff" where
  "upscale w modelName downscaledPath =
     bindE (emit [Upscale modelName downscaledPath]) (\<lambda>_.
       if upscaler w modelName downscaledPath then returnE () else throwE (Rejected ''upscale''))"

definition calc_run :: "calculator \<Rightarrow> string \<Rightarrow> string \<Rightarrow> string \<Rightarrow> metric \<Rightarrow> ('s, number) eff" where
  "calc_run calc upscaledPath originalPath diffPath m =
     bindE (emit [Compare m upscaledPath originalPath diffPath]) (\<lambda>_.
       liftE (calc upscaledPath originalPath diffPath m))"

definition benchmark_processFile :: "calculator \<Rightarrow> world \<Rightarrow> string \<Rightarrow> string \<Rightarrow> string \<Rightarrow> FileTriple \<Rightarrow> (scores, unit) eff" where
  "benchmark_processFile calc w modelName upscaledFolder diffFolder t =
     (let originalWidth = width (original t);
          originalHeight = height (original t);
          originalPath = path (original t);
          downscaledPath = path (downscaled t);
          file = fileName t
      in
      bindE (upscale w modelName downscaledPath) (\<lambda>_.
        let upscaledPath = path_resolve w [upscaledFolder, file] in
        bindE (emit [WriteUpscaled upscaledPath]) (\<lambda>_.
        bindE (getSize (upscaledSizeOf w modelName) upscaledPath) (\<lambda>(upscaledWidth, upscaledHeight).
          let diffPath = path_resolve w [diffFolder, file] in
          if strict_ne originalWidth upscaledWidth \<or> strict_ne originalHeight upscaledHeight
          then throwE (DimensionsMismatch originalWidth originalHeight upscaledWidth upscaledHeight)
          else
            bindE (calc_run calc upscaledPath originalPath diffPath SSIM) (\<lambda>v1.
            bindE (\<lambda>sc. (Inr (), sc\<lparr>ssim_arr := ssim_arr sc @ [v1]\<rparr>, [])) (\<lambda>_.
            bindE (calc_run calc upscaledPath originalPath diffPath PSNR) (\<lambda>v2.
            (\<lambda>sc. (Inr (), sc\<lparr>psnr_arr := psnr_arr sc @ [v2]\<rparr>, [])))))))))"

definition benchmark_files :: "calculator \<Rightarrow> world \<Rightarrow> string \<Rightarrow> string \<Rightarrow> number \<Rightarrow> FileTriple list \<Rightarrow> (scores, unit) eff" where
  "benchmark_files calc w modelName tmpDir n files =
     asyncPool
       (benchmark_processFile calc w modelName (path_resolve w [tmpDir, ''upscaled''])
          (path_resolve w [tmpDir, ''diff'']))
       (\<lambda>i. [RenderProgressBar (Fin (of_nat i)) n]) 0 files"

text \<open>
  One round of the two loops of \<open>benchmark\<close>: the model is awaited, the dataset is
  initialized at the scale of the model, its files are benchmarked one after the other,
  and the two averages are the result for the pair.
\<close>

definition benchmark_pair :: "calculator \<Rightarrow> world \<Rightarrow> number \<Rightarrow> string \<Rightarrow> number option \<Rightarrow> string \<Rightarrow> (Dataset, ModelDefinition \<times> BenchmarkResult) eff" where
  "benchmark_pair calc w this_n tmpDir crp modelName =
     bindE (liftE (loadModel w modelName)) (\<lambda>modelDefinition.
     bindE (initialize w (model_scale modelDefinition) crp) (\<lambda>_.
     bindE (\<lambda>d. liftE (Dataset_getFiles d (model_scale modelDefinition) crp) d) (\<lambda>files.
       let n = Math_min this_n (of_length files) in
       bindE (emit [RenderProgressBar (Fin 0) n]) (\<lambda>_ d.
         case benchmark_files calc w modelName tmpDir n files \<lparr>ssim_arr = [], psnr_arr = []\<rparr> of
           (Inl e, sc, evs) \<Rightarrow> (Inl e, d, evs)
         | (Inr _, sc, evs) \<Rightarrow>
             (Inr (modelDefinition, \<lparr>ssim = avg (ssim_arr sc), psnr = avg (psnr_arr sc)\<rparr>), d, evs)))))"

type_synonym results = "(string \<times> ModelDefinition \<times> BenchmarkResult) list"

fun benchmark_models :: "(string \<Rightarrow> calculator) \<Rightarrow> world \<Rightarrow> number \<Rightarrow> string \<Rightarrow> number option \<Rightarrow> string list \<Rightarrow> results \<Rightarrow> (Dataset, results) eff" where
  "benchmark_models calc w this_n tmpDir crp [] res = returnE res"
| "benchmark_models calc w this_n tmpDir crp (m # ms) res =
     bindE (benchmark_pair (calc m) w this_n tmpDir crp m) (\<lambda>(modelDefinition, r) d.
       benchmark_models calc w this_n tmpDir crp ms
         (res @ [(definitionName (datasetDefinition d), modelDefinition, r)]) d)"

fun benchmark_datasets :: "(string \<Rightarrow> calculator) \<Rightarrow> world \<Rightarrow> number \<Rightarrow> string \<Rightarrow> number option \<Rightarrow> string list \<Rightarrow> (string \<times> Dataset) list \<Rightarrow> results \<Rightarrow> (error + results) \<times> (string \<times> Dataset) list \<times> event list" where
  "benchmark_datasets calc w this_n tmpDir crp ms [] res = (Inr res, [], [])"
| "benchmark_datasets calc w this_n tmpDir crp ms ((nm, d) # ds) res =
     (case benchmark_models calc w this_n tmpDir crp ms res d of
        (Inl e, d1, evs) \<Rightarrow> (Inl e, (nm, d1) # ds, evs)
      | (Inr res1, d1, evs) \<Rightarrow>
          (case benchmark_datasets calc w this_n tmpDir crp ms ds res1 of
             (r, ds1, evs1) \<Rightarrow> (r, (nm, d1) # ds1, evs @ evs1)))"

text \<open>
  The Benchmarker keeps its models and datasets in maps keyed by name, filled in the
  order of the arguments (a name given twice keeps its first place and its last value).
  \<open>benchmark\<close> walks the datasets and, for each, the models; when every pair is done it
  prints the results.
\<close>

record Benchmarker =
  this_n :: number
  models :: "string list"
  datasets :: "(string \<times> Dataset) list"
  tmpDir :: string

definition Benchmarker_benchmark :: "(string \<Rightarrow> calculator) \<Rightarrow> world \<Rightarrow> number option \<Rightarrow> Benchmarker \<Rightarrow> (error + results) \<times> Benchmarker \<times> event list" where
  "Benchmarker_benchmark calc w crp b =
     (case benchmark_datasets calc w (this_n b) (tmpDir b) crp (models b) (datasets b) [] of
        (Inl e, ds, evs) \<Rightarrow> (Inl e, b\<lparr>datasets := ds\<rparr>, evs)
      | (Inr res, ds, evs) \<Rightarrow>
          (Inr res, b\<lparr>datasets := ds\<rparr>,
           evs @ map (\<lambda>(nm, md, r). ConsoleLog (packageName md) (model_scale md) nm r) res))"

section \<open>The entry point\<close>

text \<open>
  The constructor of \<open>Dataset\<close> reads the cached database of the dataset, or starts
  from the empty one when the file cannot be read.
\<close>

definition getDatasetDatabase :: "world \<Rightarrow> Dataset \<Rightarrow> DatasetDatabase" where
  "getDatasetDatabase w d =
     (case getWritableName w d ''database.json'' of
        Inl _ \<Rightarrow> []
      | Inr filename \<Rightarrow> (case readDatabase w filename of None \<Rightarrow> [] | Some db \<Rightarrow> db))"

definition Dataset_new :: "world \<Rightarrow> DatasetDefinition \<Rightarrow> Dataset" where
  "Dataset_new w def =
     (let this = \<lparr>datasetDefinition = def, database = []\<rparr>
      in this\<lparr>database := getDatasetDatabase w this\<rparr>)"

definition Benchmarker_new :: "world \<Rightarrow> string list \<Rightarrow> Dataset list \<Rightarrow> number \<Rightarrow> Benchmarker \<times> event list" where
  "Benchmarker_new w ms ds n =
     (\<lparr>this_n = n,
       models = map fst (fold (\<lambda>modelName. AList.update modelName ()) ms []),
       datasets = fold (\<lambda>dataset. AList.update (definitionName (datasetDefinition dataset)) dataset) ds [],
       tmpDir = makeTmpDir w\<rparr>,
      [MakeTmpDir (makeTmpDir w)])"

definition cleanup :: "Benchmarker \<Rightarrow> event list" where
  "cleanup b = [RmSync (tmpDir b)]"

text \<open>
  A promise is pending until its executor calls \<open>resolve\<close> or \<open>reject\<close>; the first
  call settles it. Such a call is the effect \<open>Settle\<close>, and \<open>promise_of\<close> reads the
  state of the promise off the effects of the executor and of what it started. The
  executor of \<open>benchmarkPerformance\<close> is an \<open>async\<close> function, so neither the value
  it returns nor an error thrown in it reaches the promise. The benchmark that the
  constructor of the Benchmarker starts is not awaited, so the clean-up comes before the
  effects of the pairs.
\<close>

datatype promise = Pending | Fulfilled | Broken error

fun promise_of :: "event list \<Rightarrow> promise" where
  "promise_of [] = Pending"
| "promise_of (Settle Resolve # evs) = Fulfilled"
| "promise_of (Settle (Reject e) # evs) = Broken e"
| "promise_of (_ # evs) = promise_of evs"

definition benchmarkPerformance_executor :: "(string \<Rightarrow> calculator) \<Rightarrow> world \<Rightarrow> string list \<Rightarrow> DatasetDefinition list \<Rightarrow> number option \<Rightarrow> number option \<Rightarrow> string \<times> event list" where
  "benchmarkPerformance_executor calc w ms datasetDefinitions n crp =
     (let ds = map (\<lambda>dataset. Dataset_new w dataset) datasetDefinitions;
          (benchmarker, evs) = Benchmarker_new w ms ds (case n of None \<Rightarrow> PInf | Some k \<Rightarrow> k);
          (r, b1, evs1) = Benchmarker_benchmark calc w crp benchmarker
      in (''foo'', evs @ cleanup benchmarker @ evs1))"

definition benchmarkPerformance :: "(string \<Rightarrow> calculator) \<Rightarrow> world \<Rightarrow> string list \<Rightarrow> DatasetDefinition list \<Rightarrow> number option \<Rightarrow> number option \<Rightarrow> promise" where
  "benchmarkPerformance calc w ms datasetDefinitions n crp =
     promise_of (snd (benchmarkPerformance_executor calc w ms datasetDefinitions n crp))"

section \<open>Notions used in the statements\<close>

text \<open>
  \<open>db_put k s e db\<close> is the database after \<open>saveDatabase(k, {[s]: e})\<close>.
  \<open>done_for db scale crp fn\<close> says that \<open>fn\<close> is cached in \<open>db\<close> at \<open>scale\<close>,
  with the crop \<open>crp\<close> when a truthy one is asked for.
\<close>

definition db_put :: "string \<Rightarrow> number \<Rightarrow> ProcessedFileDefinition \<Rightarrow> DatasetDatabase \<Rightarrow> DatasetDatabase" where
  "db_put k s e db =
     AList.update k (AList.update s e (case map_of db k of None \<Rightarrow> [] | Some old \<Rightarrow> old)) db"

definition done_for :: "DatasetDatabase \<Rightarrow> number \<Rightarrow> number option \<Rightarrow> string \<Rightarrow> bool" where
  "done_for db scale crp fn =
     (case entry db fn scale of
        None \<Rightarrow> False
      | Some e \<Rightarrow> (case crp of None \<Rightarrow> True | Some c \<Rightarrow> truthy c \<longrightarrow> map_of (cropped e) c \<noteq> None))"

text \<open>
  \<open>settles\<close> holds of a call of \<open>resolve\<close> or \<open>reject\<close>.
\<close>

fun settles :: "event \<Rightarrow> bool" where
  "settles (Settle _) = True"
| "settles _ = False"

text \<open>
  \<open>image_work\<close> holds of the effects that derive or measure an image;
  \<open>database_writes\<close> lists what a run wrote to the database file, in order.
\<close>

fun image_work :: "event \<Rightarrow> bool" where
  "image_work (SizeOf _) = True"
| "image_work (Sharp _) = True"
| "image_work (WriteImage _) = True"
| "image_work _ = False"

fun database_writes :: "event list \<Rightarrow> (string \<times> DatasetDatabase) list" where
  "database_writes [] = []"
| "database_writes (WriteDatabase f db # evs) = (f, db) # database_writes evs"
| "database_writes (_ # evs) = database_writes evs"

text \<open>
  A small world for the examples: paths are joined with a slash, the source directory
  holds the image \<open>a.png\<close> of 5 by 5 pixels and a text file, every call of the image
  library succeeds, and the comparison tool prints \<open>0.9\<close> on its standard output and
  \<open>abc\<close> on its standard error.
\<close>

definition example_world :: world where
  "example_world =
     \<lparr>dirname = ''/repo/scripts/package-scripts/benchmark'',
      path_resolve = (\<lambda>ps. join ''/'' ps),
      path_join = (\<lambda>a b. a @ ''/'' @ b),
      numberToString = (\<lambda>x. if x = Fin 2 then ''2'' else if x = Fin 3 then ''3'' else ''4''),
      readdirSync = (\<lambda>dir. [File ''a.png'', File ''notes.txt'']),
      sizeOf = (\<lambda>p. Some (Fin 5, Fin 5)),
      sharp = (\<lambda>c. True),
      exec = (\<lambda>cmd. \<lparr>stdout_chunks = [''0.9''], stderr_chunks = [''abc''], exit_error = None\<rparr>),
      readDatabase = (\<lambda>f. None),
      makeTmpDir = ''/tmp/run'',
      loadModel = (\<lambda>m. Inr \<lparr>model_scale = Fin 2, packageName = None\<rparr>),
      upscaler = (\<lambda>m p. True),
      upscaledSizeOf = (\<lambda>m p. Some (Fin 4, Fin 4))\<rparr>"

definition example_dataset :: Dataset where
  "example_dataset =
     \<lparr>datasetDefinition = \<lparr>definitionName = ''ds'', definitionPath = Some ''/img''\<rparr>,
      database = []\<rparr>"

definition example_first_run :: "(error + unit) \<times> Dataset \<times> event list" where
  "example_first_run = initialize example_world (Fin 2) (Some (Fin 2)) example_dataset"

definition example_unnamed_path :: Dataset where
  "example_unnamed_path =
     \<lparr>datasetDefinition = \<lparr>definitionName = ''ds'', definitionPath = Some []\<rparr>,
      database = []\<rparr>"




fun crop_work :: "event \<Rightarrow> bool" where
  "crop_work (Sharp (Extract _ _ _ _ _)) = True"
| "crop_work _ = False"


definition keys_are_names :: "DatasetDatabase \<Rightarrow> bool" where
  "keys_are_names db = (\<forall>fn s e. entry db fn s = Some e \<longrightarrow> fileName e = fn)"

text \<open>
  A database with two files cached at scale 2, stored in the order \<open>b.png\<close>,
  \<open>a.png\<close>; only \<open>a.png\<close> has a crop, of size 64.
\<close>

definition example_database :: DatasetDatabase where
  "example_database =
     [(''b.png'',
       [(Fin 2,
         \<lparr>original = \<lparr>path = ''/c/b-original.png'', width = Fin 100, height = Fin 80\<rparr>,
          downscaled = \<lparr>path = ''/c/b-downscaled.png'', width = Fin 50, height = Fin 40\<rparr>,
          fileName = ''b.png'',
          cropped = []\<rparr>)]),
      (''a.png'',
       [(Fin 2,
         \<lparr>original = \<lparr>path = ''/c/a-original.png'', width = Fin 200, height = Fin 100\<rparr>,
          downscaled = \<lparr>path = ''/c/a-downscaled.png'', width = Fin 100, height = Fin 50\<rparr>,
          fileName = ''a.png'',
          cropped =
            [(Fin 64,
              \<lparr>original = \<lparr>path = ''/c/a-cropped-original.png'', width = Fin 64, height = Fin 64\<rparr>,
               downscaled = \<lparr>path = ''/c/a-cropped-downscaled.png'', width = Fin 32, height = Fin 32\<rparr>\<rparr>)]\<rparr>)])]"

definition example_cached :: Dataset where
  "example_cached =
     \<lparr>datasetDefinition = \<lparr>definitionName = ''ds'', definitionPath = Some ''/img''\<rparr>,
      database = example_database\<rparr>"

text \<open>
  The paths of the upscaled image and of the difference image of a file, and the score
  the calculator gives for the file.
\<close>

definition upscaledPath_of :: "world \<Rightarrow> string \<Rightarrow> FileTriple \<Rightarrow> string" where
  "upscaledPath_of w tmp t = path_resolve w [path_resolve w [tmp, ''upscaled''], fileName t]"



text \<open>
  A world in which the model gives back images of the recorded original sizes of
  \<open>example_database\<close>, and a stub calculator with the scores 0.9 and 30 for
  \<open>a.png\<close>, 0.8 and 28 for \<open>b.png\<close>. In \<open>example_world\<close> itself every upscaled
  image is 4 by 4.
\<close>

definition example_bench_world :: world where
  "example_bench_world =
     example_world\<lparr>upscaledSizeOf :=
       (\<lambda>m p. if p = ''/tmp/run/upscaled/a.png'' then Some (Fin 200, Fin 100) else Some (Fin 100, Fin 80))\<rparr>"

definition example_calc :: calculator where
  "example_calc upscaledPath originalPath diffPath m =
     (if upscaledPath = ''/tmp/run/upscaled/a.png''
      then (case m of SSIM \<Rightarrow> Inr (Fin (9 / 10)) | PSNR \<Rightarrow> Inr (Fin 30))
      else (case m of SSIM \<Rightarrow> Inr (Fin (8 / 10)) | PSNR \<Rightarrow> Inr (Fin 28)))"


text \<open>
  A world in which the model gives back \<open>b.png\<close> at the downscaled size, 50 by 40,
  and the two entries that \<open>getFiles\<close> returns for \<open>example_database\<close>.
\<close>

definition example_mismatch_world :: world where
  "example_mismatch_world =
     example_world\<lparr>upscaledSizeOf :=
       (\<lambda>m p. if p = ''/tmp/run/upscaled/a.png'' then Some (Fin 200, Fin 100) else Some (Fin 50, Fin 40))\<rparr>"

definition example_triple_a :: FileTriple where
  "example_triple_a =
     \<lparr>original = \<lparr>path = ''/c/a-original.png'', width = Fin 200, height = Fin 100\<rparr>,
      downscaled = \<lparr>path = ''/c/a-downscaled.png'', width = Fin 100, height = Fin 50\<rparr>,
      fileName = ''a.png''\<rparr>"

definition example_triple_b :: FileTriple where
  "example_triple_b =
     \<lparr>original = \<lparr>path = ''/c/b-original.png'', width = Fin 100, height = Fin 80\<rparr>,
      downscaled = \<lparr>path = ''/c/b-downscaled.png'', width = Fin 50, height = Fin 40\<rparr>,
      fileName = ''b.png''\<rparr>"

definition example_mismatch_init :: "(error + unit) \<times> Dataset \<times> event list" where
  "example_mismatch_init = initialize example_mismatch_world (Fin 2) None example_cached"

definition example_mismatch_files :: "(error + unit) \<times> scores \<times> event list" where
  "example_mismatch_files =
     benchmark_files example_calc example_mismatch_world ''m'' ''/tmp/run''
       (Math_min PInf (of_length ([example_triple_a] @ example_triple_b # [])))
       [example_triple_a] \<lparr>ssim_arr = [], psnr_arr = []\<rparr>"

section \<open>Basic facts\<close>

lemma split_nonempty:
  "split c s \<noteq> []"
  by (induction s) (auto split: list.splits)


lemma returnE_app:
  "returnE x s = (Inr x, s, [])"
  by (simp add: returnE_def)
lemma throwE_app:
  "throwE e s = (Inl e, s, [])"
  by (simp add: throwE_def)
lemma emit_app:
  "emit evs s = (Inr (), s, evs)"
  by (simp add: emit_def)
lemma liftE_app:
  "liftE r s = (r, s, [])"
  by (simp add: liftE_def)
lemma bindE_app:
  "bindE m f s =
   (case m s of (Inl e, s1, evs) \<Rightarrow> (Inl e, s1, evs)
     | (Inr x, s1, evs) \<Rightarrow> (case f x s1 of (r, s2, evs') \<Rightarrow> (r, s2, evs @ evs')))"
  by (simp add: bindE_def)

lemmas eff_simps = returnE_app throwE_app emit_app liftE_app bindE_app

lemma getWritableName_Inr:
  "getWritableName w d nm =
     Inr (path_resolve w [CACHE_DIR w, definitionName (datasetDefinition d),
                          join ''-'' (split CHR ''/'' (join ''.'' (split CHR ''.'' nm)))])"
proof -
  have "\<not> length (split CHR ''.'' nm) < 1"
    using split_nonempty [of "CHR ''.''" nm] by (cases "split CHR ''.'' nm") auto
  then show ?thesis by (simp add: getWritableName_def Let_def)
qed

lemma spread_single:
  "spread old [(k, v)] = AList.update k v old"
  by (simp add: spread_def)

lemma spread_empty:
  "spread old [] = old"
  by (simp add: spread_def)

lemma entry_db_put:
  "entry (db_put k s e db) k' s' =
     (if k' = k \<and> s' = s then Some e else entry db k' s')"
  by (auto simp: entry_def db_put_def update_conv' split: option.splits)

lemma saveDatabase_Some:
  "k \<noteq> [] \<Longrightarrow>
   saveDatabase w (Some k) [(s, e)] d =
     (Inr (), d\<lparr>database := db_put k s e (database d)\<rparr>,
      [WriteDatabase (path_resolve w [CACHE_DIR w, definitionName (datasetDefinition d), ''database.json''])
         (db_put k s e (database d))])"
  by (simp add: saveDatabase_def getWritableName_Inr spread_single db_put_def Let_def)

lemma saveDatabase_empty_key:
  "saveDatabase w (Some []) p d =
     (Inr (), d,
      [WriteDatabase (path_resolve w [CACHE_DIR w, definitionName (datasetDefinition d), ''database.json''])
         (database d)])"
  by (simp add: saveDatabase_def getWritableName_Inr Let_def)

lemma saveDatabase_None:
  "saveDatabase w None p d =
     (Inr (), d,
      [WriteDatabase (path_resolve w [CACHE_DIR w, definitionName (datasetDefinition d), ''database.json''])
         (database d)])"
  by (simp add: saveDatabase_def getWritableName_Inr Let_def)

lemma processOriginal_cached:
  "entry (database d) fn scale \<noteq> None \<Longrightarrow> processOriginal w scale fp fn d = (Inr (), d, [])"
  by (simp add: processOriginal_def eff_simps)

lemma processOriginal_recorded:
  assumes "processOriginal w scale fp fn d = (Inr (), d', evs)"
    and "entry (database d) fn scale = None" and "fn \<noteq> []"
  shows "\<exists>wd ht e. sizeOf w fp = Some (wd, ht) \<and> truthy wd \<and> truthy ht \<and>
           d' = d\<lparr>database := db_put fn scale e (database d)\<rparr> \<and>
           width (original e) = jmul (Math_floor (jdiv wd scale)) scale \<and>
           height (original e) = jmul (Math_floor (jdiv ht scale)) scale \<and>
           width (downscaled e) = jdiv wd scale \<and>
           height (downscaled e) = jdiv ht scale \<and>
           fileName e = fn \<and> cropped e = []"
  using assms
  by (auto simp: processOriginal_def eff_simps getSize_def sharp_run_def saveImage_def
        getWritableName_Inr saveDatabase_Some getDims_def Let_def
      split: option.splits if_splits prod.splits sum.splits)


lemma processCrop_success:
  assumes "processCrop w scale fn c e d = (Inr (), d', evs)" and "fn \<noteq> []"
  shows "\<exists>cur cr. entry (database d) fn scale = Some cur \<and>
           d' = d\<lparr>database := db_put fn scale (cur\<lparr>cropped := AList.update c cr (cropped cur)\<rparr>) (database d)\<rparr>"
  using assms
  by (auto simp: processCrop_def eff_simps sharp_run_def saveImage_def
        getWritableName_Inr saveDatabase_Some getDims_def Let_def spread_single
      split: option.splits if_splits prod.splits sum.splits)

lemma prepare_processFile_noop:
  "done_for (database d) scale crp fn \<Longrightarrow>
   prepare_processFile w scale crp (fn, fp) d = (Inr (), d, [])"
  by (auto simp: done_for_def prepare_processFile_def eff_simps processOriginal_cached
      split: option.splits)

lemma prepare_processFile_steps:
  assumes "prepare_processFile w scale crp (fn, fp) d = (Inr (), d', evs)" and "fn \<noteq> []"
  shows "done_for (database d') scale crp fn \<and>
         (\<forall>g. g \<noteq> fn \<longrightarrow> (\<forall>s. entry (database d') g s = entry (database d) g s))"
proof (cases "case entry (database d) fn scale of
           None \<Rightarrow> False
         | Some e \<Rightarrow> (case crp of None \<Rightarrow> True | Some c \<Rightarrow> map_of (cropped e) c \<noteq> None)")
  case True
  with assms have "d' = d" by (simp add: prepare_processFile_def eff_simps)
  with True show ?thesis by (auto simp: done_for_def split: option.splits)
next
  case False
  obtain r1 d1 e1 where po: "processOriginal w scale fp fn d = (r1, d1, e1)"
    by (metis prod_cases3)
  with assms False have r1: "r1 = Inr ()"
    by (auto simp: prepare_processFile_def eff_simps split: sum.splits)
  have frame1: "\<forall>g. g \<noteq> fn \<longrightarrow> (\<forall>s. entry (database d1) g s = entry (database d) g s)"
  proof (cases "entry (database d) fn scale")
    case None
    from processOriginal_recorded [OF po [unfolded r1] None assms(2)]
    show ?thesis by (auto simp: entry_db_put)
  next
    case (Some a)
    then show ?thesis using po processOriginal_cached [of d fn scale w fp] by simp
  qed
  from assms False po r1 obtain e where e: "entry (database d1) fn scale = Some e"
    by (auto simp: prepare_processFile_def eff_simps split: option.splits)
  show ?thesis
  proof (cases "\<exists>c. crp = Some c \<and> truthy c \<and> map_of (cropped e) c = None")
    case True
    then obtain c where c: "crp = Some c" "truthy c" "map_of (cropped e) c = None" by blast
    with assms False po r1 e have "\<exists>ev. processCrop w scale fn c e d1 = (Inr (), d', ev)"
      by (auto simp: prepare_processFile_def eff_simps split: option.splits prod.splits)
    then obtain ev where "processCrop w scale fn c e d1 = (Inr (), d', ev)" ..
    from processCrop_success [OF this assms(2)] c frame1
    show ?thesis by (auto simp: done_for_def entry_db_put update_conv')
  next
    case nocrop: False
    with assms False po r1 e have "d' = d1"
      by (auto simp: prepare_processFile_def eff_simps split: option.splits prod.splits if_splits)
    with e nocrop frame1 show ?thesis
      by (auto simp: done_for_def split: option.splits)
  qed
qed

lemma done_for_frame:
  "\<forall>s. entry db' g s = entry db g s \<Longrightarrow> done_for db' scale crp g = done_for db scale crp g"
  by (simp add: done_for_def)

lemma asyncPool_noop:
  "(\<And>x. x \<in> set xs \<Longrightarrow> fn x s = (Inr (), s, [])) \<Longrightarrow>
   asyncPool fn body i xs s = (Inr (), s, concat (map body [Suc i..<Suc i + length xs]))"
proof (induction xs arbitrary: i)
  case Nil
  then show ?case by (simp add: eff_simps)
next
  case (Cons x xs)
  have "[Suc i..<Suc i + length (x # xs)] = Suc i # [Suc (Suc i)..<Suc (Suc i) + length xs]"
    by (simp add: upt_rec)
  with Cons show ?case by (simp add: eff_simps)
qed

lemma asyncPool_pres:
  "asyncPool fn body i xs s = (Inr (), s', evs) \<Longrightarrow>
   (\<And>x s s1 e. x \<in> set xs \<Longrightarrow> fn x s = (Inr (), s1, e) \<Longrightarrow> P s \<Longrightarrow> P s1) \<Longrightarrow>
   P s \<Longrightarrow> P s'"
proof (induction xs arbitrary: i s evs)
  case Nil
  then show ?case by (simp add: eff_simps)
next
  case (Cons x xs)
  from Cons.prems(1) obtain s1 e1 evs' where
    st: "fn x s = (Inr (), s1, e1)" and rest: "asyncPool fn body (Suc i) xs s1 = (Inr (), s', evs')"
    by (auto simp: eff_simps split: sum.splits prod.splits)
  have "P s1" using Cons.prems(2) [of x s s1 e1] st Cons.prems(3) by simp
  show ?case
  proof (rule Cons.IH [OF rest _ \<open>P s1\<close>])
    fix y t t1 e
    assume "y \<in> set xs" "fn y t = (Inr (), t1, e)" "P t"
    then show "P t1" using Cons.prems(2) [of y t t1 e] by simp
  qed
qed

lemma asyncPool_inv:
  "asyncPool fn body i xs s = (Inr (), s', evs) \<Longrightarrow>
   (\<And>x s s1 e. x \<in> set xs \<Longrightarrow> fn x s = (Inr (), s1, e) \<Longrightarrow> Q x s1) \<Longrightarrow>
   (\<And>x y s s1 e. x \<in> set xs \<Longrightarrow> fn x s = (Inr (), s1, e) \<Longrightarrow> Q y s \<Longrightarrow> Q y s1) \<Longrightarrow>
   x \<in> set xs \<Longrightarrow> Q x s'"
proof (induction xs arbitrary: i s evs)
  case Nil
  then show ?case by simp
next
  case (Cons a xs)
  from Cons.prems(1) obtain s1 e1 evs' where
    st: "fn a s = (Inr (), s1, e1)" and rest: "asyncPool fn body (Suc i) xs s1 = (Inr (), s', evs')"
    by (auto simp: eff_simps split: sum.splits prod.splits)
  show ?case
  proof (cases "x \<in> set xs")
    case True
    show ?thesis
    proof (rule Cons.IH [OF rest _ _ True])
      fix y t t1 e
      assume "y \<in> set xs" "fn y t = (Inr (), t1, e)"
      then show "Q y t1" using Cons.prems(2) [of y t t1 e] by simp
    next
      fix y z t t1 e
      assume "y \<in> set xs" "fn y t = (Inr (), t1, e)" "Q z t"
      then show "Q z t1" using Cons.prems(3) [of y t t1 e z] by simp
    qed
  next
    case False
    with Cons.prems(4) have xa: "x = a" by simp
    have "Q x s1" using Cons.prems(2) [of a s s1 e1] st xa by simp
    show ?thesis
    proof (rule asyncPool_pres [where P = "Q x", OF rest _ \<open>Q x s1\<close>])
      fix y t t1 e
      assume "y \<in> set xs" "fn y t = (Inr (), t1, e)" "Q x t"
      then show "Q x t1" using Cons.prems(3) [of y t t1 e x] by simp
    qed
  qed
qed

lemma getFiles_dirent_nonempty:
  "(\<And>a b. pjoin a b \<noteq> []) \<Longrightarrow> x \<in> set (getFiles_dirent pjoin t) \<Longrightarrow> x \<noteq> []"
proof (induction t arbitrary: x)
  case (File nm)
  then show ?case
    by (cases nm) (auto simp: pop_def split: option.splits list.splits if_splits)
next
  case (Directory nm sub)
  then show ?case by auto
qed

lemma getFiles_nonempty:
  "(\<And>a b. path_join w a b \<noteq> []) \<Longrightarrow> x \<in> set (getFiles w dir) \<Longrightarrow> x \<noteq> []"
  using getFiles_dirent_nonempty [of "path_join w"] by (fastforce simp: getFiles_def)

lemma processOriginal_definition:
  "processOriginal w scale fp fn d = (r, d', evs) \<Longrightarrow> datasetDefinition d' = datasetDefinition d"
  by (auto simp: processOriginal_def eff_simps getSize_def sharp_run_def saveImage_def
        getWritableName_Inr saveDatabase_def getDims_def Let_def
      split: option.splits if_splits prod.splits sum.splits)

lemma processCrop_definition:
  "processCrop w scale fn c e d = (r, d', evs) \<Longrightarrow> datasetDefinition d' = datasetDefinition d"
  by (auto simp: processCrop_def eff_simps sharp_run_def saveImage_def
        getWritableName_Inr saveDatabase_def getDims_def Let_def
      split: option.splits if_splits prod.splits sum.splits)

lemma prepare_processFile_definition:
  assumes "prepare_processFile w scale crp x d = (r, d', evs)"
  shows "datasetDefinition d' = datasetDefinition d"
proof -
  obtain fn fp where x: "x = (fn, fp)" by (cases x)
  obtain r1 d1 e1 where po: "processOriginal w scale fp fn d = (r1, d1, e1)"
    by (metis prod_cases3)
  note d1 = processOriginal_definition [OF po]
  show ?thesis
    using assms po d1 unfolding x
    by (auto simp: prepare_processFile_def eff_simps
          split: option.splits if_splits prod.splits sum.splits dest: processCrop_definition)
qed

lemma database_writes_append:
  "database_writes (xs @ ys) = database_writes xs @ database_writes ys"
  by (induction xs rule: database_writes.induct) auto

lemma progress_only:
  "\<forall>ev \<in> set (concat (map (\<lambda>i. [RenderProgressBar (f i) n]) ks)). \<not> image_work ev"
  by (induction ks) auto

lemma progress_no_writes:
  "database_writes (concat (map (\<lambda>i. [RenderProgressBar (f i) n]) ks)) = []"
  by (induction ks) auto

text \<open>
  C3. A second \<open>initialize\<close> with the same scale and crop size, on the same source
  directory, finds every file in the cache: it measures, derives and writes no image,
  leaves the dataset as it is, and writes the database file once more with the content
  the first call wrote last.
\<close>

theorem initialize_idempotent:
  assumes pj: "\<And>a b. path_join w a b \<noteq> []"
    and first: "initialize w scale crp d = (Inr (), d1, evs1)"
  shows "\<exists>evs2 f. initialize w scale crp d1 = (Inr (), d1, evs2) \<and>
           (\<forall>ev \<in> set evs2. \<not> image_work ev) \<and>
           last evs1 = WriteDatabase f (database d1) \<and>
           database_writes evs2 = [(f, database d1)]"
proof -
  from first obtain dPath where dp: "definitionPath (datasetDefinition d) = Some dPath" "dPath \<noteq> []"
    by (auto simp: initialize_def eff_simps split: option.splits if_splits)
  define files where "files = map (\<lambda>file. (file, path_resolve w [dPath, file])) (getFiles w dPath)"
  define total where "total = of_length files"
  define body where "body = (\<lambda>i. [RenderProgressBar (Fin (of_nat i)) total])"
  define f where "f = path_resolve w [CACHE_DIR w, definitionName (datasetDefinition d), ''database.json'']"
  have init: "\<And>s. definitionPath (datasetDefinition s) = Some dPath \<Longrightarrow>
     initialize w scale crp s =
       bindE (emit [ReadDir dPath, RenderProgressBar (Fin 0) total]) (\<lambda>_.
         bindE (prepare w files scale body crp) (\<lambda>_. saveDatabase w None [])) s"
    using dp(2) by (simp add: initialize_def files_def total_def body_def Let_def)
  from first dp obtain evsP where
    prep: "prepare w files scale body crp d = (Inr (), d1, evsP)" and
    evs1: "evs1 = [ReadDir dPath, RenderProgressBar (Fin 0) total] @ evsP @
              [WriteDatabase (path_resolve w [CACHE_DIR w, definitionName (datasetDefinition d1), ''database.json'']) (database d1)]"
    unfolding init [OF dp(1)]
    by (auto simp: eff_simps saveDatabase_None split: sum.splits prod.splits)
  have pool: "asyncPool (prepare_processFile w scale crp) body 0 files d = (Inr (), d1, evsP)"
    using prep by (simp add: prepare_def)
  have def1: "datasetDefinition d1 = datasetDefinition d"
    by (rule asyncPool_pres [where P = "\<lambda>s. datasetDefinition s = datasetDefinition d", OF pool])
       (auto dest: prepare_processFile_definition)
  have names: "\<And>x. x \<in> set files \<Longrightarrow> fst x \<noteq> []"
    using getFiles_nonempty [OF pj] by (auto simp: files_def)
  have alldone: "\<And>x. x \<in> set files \<Longrightarrow> done_for (database d1) scale crp (fst x)"
  proof -
    fix x assume x: "x \<in> set files"
    show "done_for (database d1) scale crp (fst x)"
    proof (rule asyncPool_inv [where Q = "\<lambda>x s. done_for (database s) scale crp (fst x)", OF pool _ _ x])
      fix y s s1 e
      assume "y \<in> set files" "prepare_processFile w scale crp y s = (Inr (), s1, e)"
      then show "done_for (database s1) scale crp (fst y)"
        using prepare_processFile_steps [of w scale crp "fst y" "snd y" s s1 e] names [of y] by simp
    next
      fix y z s s1 e
      assume y: "y \<in> set files" "prepare_processFile w scale crp y s = (Inr (), s1, e)"
        and z: "done_for (database s) scale crp (fst z)"
      from y have st: "done_for (database s1) scale crp (fst y) \<and>
         (\<forall>g. g \<noteq> fst y \<longrightarrow> (\<forall>t. entry (database s1) g t = entry (database s) g t))"
        using prepare_processFile_steps [of w scale crp "fst y" "snd y" s s1 e] names [of y] by simp
      show "done_for (database s1) scale crp (fst z)"
      proof (cases "fst z = fst y")
        case True
        with st show ?thesis by simp
      next
        case False
        with st z show ?thesis by (simp add: done_for_def)
      qed
    qed
  qed
  have noop: "asyncPool (prepare_processFile w scale crp) body 0 files d1 =
      (Inr (), d1, concat (map body [Suc 0..<Suc 0 + length files]))"
  proof (rule asyncPool_noop)
    fix x assume "x \<in> set files"
    from alldone [OF this] show "prepare_processFile w scale crp x d1 = (Inr (), d1, [])"
      using prepare_processFile_noop [of d1 scale crp "fst x" w "snd x"] by simp
  qed
  let ?evs2 = "[ReadDir dPath, RenderProgressBar (Fin 0) total] @
      concat (map body [Suc 0..<Suc 0 + length files]) @ [WriteDatabase f (database d1)]"
  have second: "initialize w scale crp d1 = (Inr (), d1, ?evs2)"
    using dp(1) def1 noop
    by (simp add: init prepare_def eff_simps saveDatabase_None f_def)
  have "\<forall>ev \<in> set ?evs2. \<not> image_work ev"
    using progress_only [of "\<lambda>i. Fin (of_nat i)" total] by (auto simp: body_def)
  moreover have "database_writes ?evs2 = [(f, database d1)]"
    using progress_no_writes [of "\<lambda>i. Fin (of_nat i)" total]
    by (simp add: database_writes_append body_def)
  moreover have "last evs1 = WriteDatabase f (database d1)"
    by (simp add: evs1 f_def def1)
  ultimately show ?thesis using second by blast
qed

theorem initialize_idempotent_witness:
  "\<exists>evs2 f.
     initialize example_world (Fin 2) (Some (Fin 2)) (fst (snd example_first_run))
       = (Inr (), fst (snd example_first_run), evs2) \<and>
     (\<forall>ev \<in> set evs2. \<not> image_work ev) \<and>
     last (snd (snd example_first_run)) = WriteDatabase f (database (fst (snd example_first_run))) \<and>
     database_writes evs2 = [(f, database (fst (snd example_first_run)))]"
proof -
  have pj: "\<And>a b. path_join example_world a b \<noteq> []"
    by (simp add: example_world_def)
  have "fst example_first_run = Inr ()"
    by code_simp
  then have run: "initialize example_world (Fin 2) (Some (Fin 2)) example_dataset
      = (Inr (), fst (snd example_first_run), snd (snd example_first_run))"
    by (simp add: example_first_run_def prod_eq_iff)
  from initialize_idempotent [OF pj run] show ?thesis .
qed

text \<open>
  C5. \<open>initialize\<close> on a dataset whose definition has no path, or the empty path,
  throws the error that names the dataset and the missing path; the dataset is
  unchanged and nothing has been read, derived or written.
\<close>

theorem initialize_without_path:
  "definitionPath (datasetDefinition d) = None \<or> definitionPath (datasetDefinition d) = Some [] \<Longrightarrow>
   initialize w scale crp d = (Inl (DatasetNotProcessed (definitionName (datasetDefinition d))), d, [])"
  by (auto simp: initialize_def throwE_app)

theorem initialize_without_path_witness:
  "(definitionPath (datasetDefinition example_unnamed_path) = None
      \<or> definitionPath (datasetDefinition example_unnamed_path) = Some []) \<and>
   initialize example_world (Fin 2) None example_unnamed_path
     = (Inl (DatasetNotProcessed ''ds''), example_unnamed_path, [])"
proof -
  have h: "definitionPath (datasetDefinition example_unnamed_path) = None
      \<or> definitionPath (datasetDefinition example_unnamed_path) = Some []"
    by (simp add: example_unnamed_path_def)
  from initialize_without_path [OF h, of example_world "Fin 2" None] h show ?thesis
    by (simp add: example_unnamed_path_def)
qed




lemma mapE_Inr:
  "mapE f xs = Inr ys \<Longrightarrow> map Inr ys = map f xs"
  by (induction xs arbitrary: ys) (auto split: sum.splits)

lemma mapE_Inl:
  "x \<in> set xs \<Longrightarrow> f x = Inl e \<Longrightarrow> \<exists>e'. mapE f xs = Inl e'"
  by (induction xs) (auto split: sum.splits)




lemma mapE_Inl_D:
  "mapE f xs = Inl e \<Longrightarrow> \<exists>x \<in> set xs. f x = Inl e"
  by (induction xs) (auto split: sum.splits)




lemma saveDatabase_cases:
  "saveDatabase w (Some k) [(s, e)] d = (r, d', evs) \<Longrightarrow>
   r = Inr () \<and> (\<forall>ev \<in> set evs. \<not> crop_work ev) \<and>
   (d' = d \<or> (k \<noteq> [] \<and> d' = d\<lparr>database := db_put k s e (database d)\<rparr>))"
  by (cases "k = []") (auto simp: saveDatabase_Some saveDatabase_empty_key)

lemma processOriginal_cases:
  assumes "processOriginal w scale fp fn d = (r, d', evs)"
  shows "(\<forall>ev \<in> set evs. \<not> crop_work ev) \<and>
         (d' = d \<or> (entry (database d) fn scale = None \<and>
            (\<exists>e. d' = d\<lparr>database := db_put fn scale e (database d)\<rparr> \<and> cropped e = [] \<and> fileName e = fn)))"
proof (cases "entry (database d) fn scale")
  case (Some a)
  with assms show ?thesis
    using processOriginal_cached [of d fn scale w fp] by auto
next
  case None
  show ?thesis
  proof (cases "fn = []")
    case True
    with assms None show ?thesis
      by (auto simp: processOriginal_def eff_simps getSize_def sharp_run_def saveImage_def
          getWritableName_Inr saveDatabase_empty_key getDims_def Let_def
          split: option.splits if_splits prod.splits sum.splits)
  next
    case False
    with assms None show ?thesis
      by (auto simp: processOriginal_def eff_simps getSize_def sharp_run_def saveImage_def
          getWritableName_Inr saveDatabase_Some getDims_def Let_def
          split: option.splits if_splits prod.splits sum.splits)
  qed
qed


lemma asyncPool_any:
  "asyncPool fn body i xs s = (r, s', evs) \<Longrightarrow>
   (\<And>x s r1 s1 e. x \<in> set xs \<Longrightarrow> fn x s = (r1, s1, e) \<Longrightarrow> P s \<Longrightarrow> P s1 \<and> (\<forall>ev \<in> set e. E ev)) \<Longrightarrow>
   (\<And>k ev. ev \<in> set (body k) \<Longrightarrow> E ev) \<Longrightarrow>
   P s \<Longrightarrow> P s' \<and> (\<forall>ev \<in> set evs. E ev)"
proof (induction xs arbitrary: i s evs)
  case Nil
  then show ?case
    by (simp add: eff_simps)
next
  case (Cons x xs)
  obtain r1 s1 e1 where st: "fn x s = (r1, s1, e1)"
    by (metis prod_cases3)
  from Cons.prems(2) [of x s r1 s1 e1] st Cons.prems(4)
  have s1: "P s1" and e1: "\<forall>ev \<in> set e1. E ev"
    by auto
  show ?case
  proof (cases r1)
    case (Inl err)
    with Cons.prems(1) st s1 e1 show ?thesis
      by (auto simp: eff_simps)
  next
    case (Inr u)
    with Cons.prems(1) st obtain e2 where
      rest: "asyncPool fn body (Suc i) xs s1 = (r, s', e2)" and evs: "evs = e1 @ body (Suc i) @ e2"
      by (auto simp: eff_simps split: prod.splits sum.splits)
    have "P s' \<and> (\<forall>ev \<in> set e2. E ev)"
    proof (rule Cons.IH [OF rest _ _ s1])
      fix y t r1 t1 e
      assume "y \<in> set xs" "fn y t = (r1, t1, e)" "P t"
      then show "P t1 \<and> (\<forall>ev \<in> set e. E ev)"
        using Cons.prems(2) [of y t r1 t1 e] by simp
    next
      fix k ev
      assume "ev \<in> set (body k)"
      then show "E ev"
        by (rule Cons.prems(3))
    qed
    with evs e1 Cons.prems(3) [of _ "Suc i"] show ?thesis
      by auto
  qed
qed





lemma map_Inr_inverse:
  "map Inr ys = map f xs \<Longrightarrow> (\<And>x y. f x = Inr y \<Longrightarrow> g y = x) \<Longrightarrow> map g ys = xs"
proof (induction xs arbitrary: ys)
  case Nil
  then show ?case
    by simp
next
  case (Cons x xs)
  then obtain y ys' where ys: "ys = y # ys'" "f x = Inr y" "map Inr ys' = map f xs"
    by (cases ys) auto
  with Cons show ?case
    by auto
qed

lemma keys_are_names_files:
  assumes "keys_are_names (database d)" and "Dataset_getFiles d scale crp = Inr files"
  shows "map fileName files = sort (map fst (database d))"
proof -
  from assms(2) have m: "map Inr files = map (getFiles_entry d scale crp) (sort (map fst (database d)))"
    by (simp add: Dataset_getFiles_def mapE_Inr)
  have "\<And>fn t. getFiles_entry d scale crp fn = Inr t \<Longrightarrow> fileName t = fn"
    using assms(1)
    by (auto simp: getFiles_entry_def keys_are_names_def split: option.splits if_splits)
  with m show ?thesis
    by (rule map_Inr_inverse)
qed

lemma keys_are_names_put:
  "keys_are_names db \<Longrightarrow> fileName e = fn \<Longrightarrow> keys_are_names (db_put fn s e db)"
  by (auto simp: keys_are_names_def entry_db_put split: if_splits)

lemma processCrop_cases:
  assumes "processCrop w scale fn c e d = (r, d', evs)"
  shows "d' = d \<or> (\<exists>cur cr. entry (database d) fn scale = Some cur \<and>
           d' = d\<lparr>database := db_put fn scale (cur\<lparr>cropped := AList.update c cr (cropped cur)\<rparr>) (database d)\<rparr>)"
proof (cases "fn = []")
  case True
  with assms show ?thesis
    by (auto simp: processCrop_def eff_simps sharp_run_def saveImage_def
        getWritableName_Inr saveDatabase_empty_key getDims_def Let_def spread_single
        split: option.splits if_splits prod.splits sum.splits)
next
  case False
  with assms show ?thesis
    by (auto simp: processCrop_def eff_simps sharp_run_def saveImage_def
        getWritableName_Inr saveDatabase_Some getDims_def Let_def spread_single
        split: option.splits if_splits prod.splits sum.splits)
qed

lemma prepare_processFile_keys_are_names:
  assumes "prepare_processFile w scale crp x d = (r, d', evs)" and "keys_are_names (database d)"
  shows "keys_are_names (database d')"
proof -
  obtain fn fp where x: "x = (fn, fp)"
    by (cases x)
  obtain r1 d1 e1 where po: "processOriginal w scale fp fn d = (r1, d1, e1)"
    by (metis prod_cases3)
  from processOriginal_cases [OF po] assms(2) have k1: "keys_are_names (database d1)"
    by (auto simp: keys_are_names_put)
  have crop: "keys_are_names (database d2)" if "processCrop w scale fn c e d1 = (r2, d2, e2)" for c e r2 d2 e2
    using processCrop_cases [OF that] k1
    by (auto simp: keys_are_names_def entry_db_put split: if_splits)
  from assms po k1 show ?thesis
    unfolding x
    by (auto simp: prepare_processFile_def eff_simps
        split: option.splits if_splits prod.splits sum.splits dest: crop)
qed

lemma initialize_keys_are_names:
  assumes "initialize w scale crp d = (r, d', evs)" and "keys_are_names (database d)"
  shows "keys_are_names (database d')"
proof (cases "\<exists>dPath. definitionPath (datasetDefinition d) = Some dPath \<and> dPath \<noteq> []")
  case False
  with assms have "d' = d"
    by (auto simp: initialize_def eff_simps split: option.splits)
  with assms(2) show ?thesis
    by simp
next
  case True
  then obtain dPath where dp: "definitionPath (datasetDefinition d) = Some dPath" "dPath \<noteq> []"
    by blast
  define files where "files = map (\<lambda>file. (file, path_resolve w [dPath, file])) (getFiles w dPath)"
  define body where "body = (\<lambda>i. [RenderProgressBar (Fin (of_nat i)) (of_length files)])"
  obtain rp dp1 ep where pool:
    "asyncPool (prepare_processFile w scale crp) body 0 files d = (rp, dp1, ep)"
    by (metis prod_cases3)
  have inv: "keys_are_names (database dp1) \<and> (\<forall>ev \<in> set ep. True)"
  proof (rule asyncPool_any [where P = "\<lambda>s. keys_are_names (database s)" and E = "\<lambda>ev. True", OF pool])
    fix x s r1 s1 e
    assume "prepare_processFile w scale crp x s = (r1, s1, e)" and "keys_are_names (database s)"
    then show "keys_are_names (database s1) \<and> (\<forall>ev \<in> set e. True)"
      using prepare_processFile_keys_are_names by blast
  qed (simp_all add: assms(2))
  from assms dp pool have "d' = dp1"
    by (auto simp: initialize_def prepare_def eff_simps saveDatabase_None files_def body_def Let_def
        split: sum.splits)
  with inv show ?thesis
    by simp
qed

text \<open>
  C4, amended. When \<open>Dataset.getFiles\<close> returns, it returns the entry of every file,
  in ascending order of the names the files are stored under; in a database whose
  entries record those names, the \<open>fileName\<close>s of the result are sorted. When a
  truthy crop size is asked for and some file has no crop of that size, the call fails,
  with the error of the missing crop or the error of a file that is not cached at the
  scale.
\<close>

theorem getFiles_sorted_or_fails:
  "(Dataset_getFiles d scale crp = Inr files \<longrightarrow>
      map Inr files = map (getFiles_entry d scale crp) (sort (map fst (database d))) \<and>
      (keys_are_names (database d) \<longrightarrow>
         map fileName files = sort (map fst (database d)) \<and> sorted (map fileName files))) \<and>
   (truthy c \<and> fn \<in> set (map fst (database d)) \<and>
    (\<forall>e. entry (database d) fn scale = Some e \<longrightarrow> map_of (cropped e) c = None) \<longrightarrow>
      Dataset_getFiles d scale (Some c) = Inl (NoCroppingExists c) \<or>
      Dataset_getFiles d scale (Some c) = Inl TypeError)"
proof (intro conjI impI)
  assume r: "Dataset_getFiles d scale crp = Inr files"
  then show "map Inr files = map (getFiles_entry d scale crp) (sort (map fst (database d)))"
    by (simp add: Dataset_getFiles_def mapE_Inr)
  assume k: "keys_are_names (database d)"
  from keys_are_names_files [OF k r]
  show "map fileName files = sort (map fst (database d))" and "sorted (map fileName files)"
    by simp_all
next
  assume a: "truthy c \<and> fn \<in> set (map fst (database d)) \<and>
    (\<forall>e. entry (database d) fn scale = Some e \<longrightarrow> map_of (cropped e) c = None)"
  then have "\<exists>e. getFiles_entry d scale (Some c) fn = Inl e"
    by (auto simp: getFiles_entry_def split: option.splits)
  with a obtain e' where e': "Dataset_getFiles d scale (Some c) = Inl e'"
    using mapE_Inl [of fn "sort (map fst (database d))" "getFiles_entry d scale (Some c)"]
    by (auto simp: Dataset_getFiles_def)
  then obtain x where "getFiles_entry d scale (Some c) x = Inl e'"
    using mapE_Inl_D [of "getFiles_entry d scale (Some c)" "sort (map fst (database d))" e']
    by (auto simp: Dataset_getFiles_def)
  then have "e' = NoCroppingExists c \<or> e' = TypeError"
    by (auto simp: getFiles_entry_def split: option.splits if_splits)
  with e' show "Dataset_getFiles d scale (Some c) = Inl (NoCroppingExists c) \<or>
      Dataset_getFiles d scale (Some c) = Inl TypeError"
    by auto
qed

theorem getFiles_sorted_or_fails_witness:
  "keys_are_names (database example_cached) \<and>
   map fileName (projr (Dataset_getFiles example_cached (Fin 2) None)) = [''a.png'', ''b.png''] \<and>
   sorted (map fileName (projr (Dataset_getFiles example_cached (Fin 2) None))) \<and>
   truthy (Fin 64) \<and> ''b.png'' \<in> set (map fst (database example_cached)) \<and>
   Dataset_getFiles example_cached (Fin 2) (Some (Fin 64)) = Inl (NoCroppingExists (Fin 64))"
proof -
  have k: "keys_are_names (database example_cached)"
    by (auto simp: keys_are_names_def example_cached_def example_database_def entry_def
        split: if_splits)
  have r: "Dataset_getFiles example_cached (Fin 2) None
      = Inr (projr (Dataset_getFiles example_cached (Fin 2) None))"
    by code_simp
  have t: "truthy (Fin 64)"
    by (simp add: truthy_def)
  have m: "''b.png'' \<in> set (map fst (database example_cached))"
    by (simp add: example_cached_def example_database_def)
  have n: "\<forall>e. entry (database example_cached) ''b.png'' (Fin 2) = Some e \<longrightarrow> map_of (cropped e) (Fin 64) = None"
    by (auto simp: example_cached_def example_database_def entry_def)
  have ne: "Dataset_getFiles example_cached (Fin 2) (Some (Fin 64)) \<noteq> Inl TypeError"
    by code_simp
  have srt: "sort (map fst (database example_cached)) = [''a.png'', ''b.png'']"
    by code_simp
  from getFiles_sorted_or_fails [of example_cached "Fin 2" None
      "projr (Dataset_getFiles example_cached (Fin 2) None)" "Fin 64" "''b.png''"]
    k r t m n ne srt
  show ?thesis
    by auto
qed

text \<open>
  C4 as stated fails at crop size 0: \<open>b.png\<close> has no crop at all, the crop size 0 is
  asked for, and the call returns the uncropped entries.
\<close>

theorem getFiles_crop_zero_counterexample:
  "map_option cropped (entry (database example_cached) ''b.png'' (Fin 2)) = Some [] \<and>
   Dataset_getFiles example_cached (Fin 2) (Some (Fin 0)) =
     Inr [\<lparr>original = \<lparr>path = ''/c/a-original.png'', width = Fin 200, height = Fin 100\<rparr>,
           downscaled = \<lparr>path = ''/c/a-downscaled.png'', width = Fin 100, height = Fin 50\<rparr>,
           fileName = ''a.png''\<rparr>,
          \<lparr>original = \<lparr>path = ''/c/b-original.png'', width = Fin 100, height = Fin 80\<rparr>,
           downscaled = \<lparr>path = ''/c/b-downscaled.png'', width = Fin 50, height = Fin 40\<rparr>,
           fileName = ''b.png''\<rparr>]"
  by code_simp

lemma fold_listener:
  "fold (\<lambda>data (out, err). (out @ data, err)) chunks (a, b) = (a @ concat chunks, b)"
  by (induction chunks arbitrary: a) auto

lemma runScript_eq:
  "runScript w cmd =
     (concat (stdout_chunks (exec w cmd)), [],
      case exit_error (exec w cmd) of None \<Rightarrow> [] | Some msg \<Rightarrow> msg)"
  by (simp add: runScript_def callExec_def Let_def fold_listener split: option.splits)

lemma calculatePerformance_always_fails:
  "calculatePerformance w upscaledPath originalPath diffPath m = Inl NoMetricFound"
  by (simp add: calculatePerformance_def runScript_eq calculatePerformance_result_def first_def)















lemma benchmark_pair_files_fail:
  assumes "loadModel w m = Inr md"
    and "initialize w (model_scale md) crp d = (Inr (), d1, e0)"
    and "Dataset_getFiles d1 (model_scale md) crp = Inr fs"
    and "benchmark_files calc w m tmp (Math_min n (of_length fs)) fs
           \<lparr>ssim_arr = [], psnr_arr = []\<rparr> = (Inl err, sc, e1)"
  shows "benchmark_pair calc w n tmp crp m d =
           (Inl err, d1, e0 @ [RenderProgressBar (Fin 0) (Math_min n (of_length fs))] @ e1)"
  unfolding benchmark_pair_def
  apply (subst bindE_app)
  apply (simp only: liftE_app assms(1) sum.case prod.case)
  apply (subst bindE_app)
  apply (simp only: assms(2) sum.case prod.case)
  apply (subst bindE_app)
  apply (simp only: liftE_app assms(3) sum.case prod.case Let_def)
  apply (subst bindE_app)
  apply (simp only: emit_app assms(4) sum.case prod.case append_Nil append_Nil2 append_assoc)
  done

lemma asyncPool_append_fail:
  "asyncPool fn body i pre s = (Inr (), s1, e1) \<Longrightarrow> fn t s1 = (Inl err, s2, e2) \<Longrightarrow>
   asyncPool fn body i (pre @ t # post) s = (Inl err, s2, e1 @ e2)"
proof (induction pre arbitrary: i s e1)
  case Nil
  then show ?case
    by (simp add: eff_simps)
next
  case (Cons x pre)
  from Cons.prems(1) obtain sx ex evs' where
    st: "fn x s = (Inr (), sx, ex)" and rest: "asyncPool fn body (Suc i) pre sx = (Inr (), s1, evs')"
    and e1: "e1 = ex @ body (Suc i) @ evs'"
    by (auto simp: eff_simps split: sum.splits prod.splits)
  from Cons.IH [OF rest Cons.prems(2)] st e1 show ?case
    by (simp add: eff_simps)
qed

lemma benchmark_processFile_mismatch:
  assumes "upscaler w m (path (downscaled t))"
    and "upscaledSizeOf w m (path_resolve w [uf, fileName t]) = Some (uw, uh)"
    and "truthy uw" and "truthy uh"
    and "strict_ne (width (original t)) uw \<or> strict_ne (height (original t)) uh"
  shows "benchmark_processFile calc w m uf df t sc =
           (Inl (DimensionsMismatch (width (original t)) (height (original t)) uw uh), sc,
            [Upscale m (path (downscaled t)), WriteUpscaled (path_resolve w [uf, fileName t]),
             SizeOf (path_resolve w [uf, fileName t])])"
  using assms
  by (auto simp: benchmark_processFile_def eff_simps upscale_def getSize_def Let_def)

lemma benchmark_models_pair_fail:
  assumes "benchmark_pair (calc m) w n tmp crp m d = (Inl err, d1, evs)"
  shows "benchmark_models calc w n tmp crp (m # ms) res d = (Inl err, d1, evs)"
  apply (simp only: benchmark_models.simps)
  apply (subst bindE_app)
  apply (simp only: assms sum.case prod.case)
  done


lemma benchmark_processFile_mismatch_tmp:
  assumes "upscaler w m (path (downscaled t))"
    and "upscaledSizeOf w m (upscaledPath_of w tmp t) = Some (uw, uh)"
    and "truthy uw" and "truthy uh"
    and "strict_ne (width (original t)) uw \<or> strict_ne (height (original t)) uh"
  shows "benchmark_processFile calc w m (path_resolve w [tmp, ''upscaled''])
      (path_resolve w [tmp, ''diff'']) t sc =
      (Inl (DimensionsMismatch (width (original t)) (height (original t)) uw uh), sc,
       [Upscale m (path (downscaled t)), WriteUpscaled (upscaledPath_of w tmp t),
             SizeOf (upscaledPath_of w tmp t)])"
  unfolding upscaledPath_of_def
  by (rule benchmark_processFile_mismatch [OF assms(1) assms(2) [unfolded upscaledPath_of_def] assms(3-5)])

lemma benchmark_files_append_fail:
  assumes "benchmark_files calc w m tmp n' pre sc0 = (Inr (), sc, e1)"
    and "benchmark_processFile calc w m (path_resolve w [tmp, ''upscaled''])
      (path_resolve w [tmp, ''diff'']) t sc = (Inl err, sc2, ev)"
  shows "benchmark_files calc w m tmp n' (pre @ t # post) sc0 = (Inl err, sc2, e1 @ ev)"
proof -
  have a: "asyncPool
       (benchmark_processFile calc w m (path_resolve w [tmp, ''upscaled''])
          (path_resolve w [tmp, ''diff'']))
       (\<lambda>i. [RenderProgressBar (Fin (of_nat i)) n']) 0 pre sc0 = (Inr (), sc, e1)"
    using assms(1) by (simp only: benchmark_files_def)
  have "asyncPool
       (benchmark_processFile calc w m (path_resolve w [tmp, ''upscaled''])
          (path_resolve w [tmp, ''diff'']))
       (\<lambda>i. [RenderProgressBar (Fin (of_nat i)) n']) 0 (pre @ t # post) sc0 = (Inl err, sc2, e1 @ ev)"
    using a assms(2) by (rule asyncPool_append_fail)
  then show ?thesis
    by (simp only: benchmark_files_def)
qed

text \<open>
  C7. When the files before \<open>t\<close> have been benchmarked and the upscaled image of \<open>t\<close>
  has dimensions other than the recorded original ones, the pair rejects with the
  dimension-mismatch error: the effects of \<open>t\<close> are the upscaling, the writing and the
  measuring of the upscaled image, with no comparison, the files after \<open>t\<close> are not
  touched, and the loop over the models stops with that error instead of a result.
\<close>

theorem benchmark_pair_dimension_mismatch:
  assumes "loadModel w m = Inr md"
    and "initialize w (model_scale md) crp d = (Inr (), d1, e0)"
    and "Dataset_getFiles d1 (model_scale md) crp = Inr (pre @ t # post)"
    and "benchmark_files calc w m tmp (Math_min n (of_length (pre @ t # post))) pre
           \<lparr>ssim_arr = [], psnr_arr = []\<rparr> = (Inr (), sc, e1)"
    and "upscaler w m (path (downscaled t))"
    and "upscaledSizeOf w m (upscaledPath_of w tmp t) = Some (uw, uh)"
    and "truthy uw" and "truthy uh"
    and "strict_ne (width (original t)) uw \<or> strict_ne (height (original t)) uh"
  shows "benchmark_pair calc w n tmp crp m d =
           (Inl (DimensionsMismatch (width (original t)) (height (original t)) uw uh), d1,
            e0 @ [RenderProgressBar (Fin 0) (Math_min n (of_length (pre @ t # post)))] @ e1 @
            [Upscale m (path (downscaled t)), WriteUpscaled (upscaledPath_of w tmp t),
             SizeOf (upscaledPath_of w tmp t)]) \<and>
         benchmark_models (\<lambda>_. calc) w n tmp crp (m # ms) res d =
           (Inl (DimensionsMismatch (width (original t)) (height (original t)) uw uh), d1,
            e0 @ [RenderProgressBar (Fin 0) (Math_min n (of_length (pre @ t # post)))] @ e1 @
            [Upscale m (path (downscaled t)), WriteUpscaled (upscaledPath_of w tmp t),
             SizeOf (upscaledPath_of w tmp t)])"
proof -
  note step = benchmark_processFile_mismatch_tmp [OF assms(5-9), of calc sc]
  note files = benchmark_files_append_fail [OF assms(4) step, of post]
  note pair = benchmark_pair_files_fail [OF assms(1) assms(2) assms(3) files]
  note all = benchmark_models_pair_fail [where calc = "\<lambda>_. calc", OF pair]
  from pair all show ?thesis
    by (simp only: append_assoc simp_thms)
qed

theorem benchmark_pair_dimension_mismatch_witness:
  "fst (benchmark_pair example_calc example_mismatch_world PInf ''/tmp/run'' None ''m'' example_cached)
     = Inl (DimensionsMismatch (Fin 100) (Fin 80) (Fin 50) (Fin 40)) \<and>
   fst (benchmark_models (\<lambda>_. example_calc) example_mismatch_world PInf ''/tmp/run'' None [''m'', ''m2''] []
          example_cached)
     = Inl (DimensionsMismatch (Fin 100) (Fin 80) (Fin 50) (Fin 40))"
proof -
  have h1: "loadModel example_mismatch_world ''m'' = Inr \<lparr>model_scale = Fin 2, packageName = None\<rparr>"
    by (simp add: example_mismatch_world_def example_world_def)
  have "fst example_mismatch_init = Inr ()"
    by code_simp
  then have h2: "initialize example_mismatch_world (model_scale \<lparr>model_scale = Fin 2, packageName = None\<rparr>)
       None example_cached
      = (Inr (), fst (snd example_mismatch_init), snd (snd example_mismatch_init))"
    by (simp add: example_mismatch_init_def prod_eq_iff)
  have h3: "Dataset_getFiles (fst (snd example_mismatch_init))
        (model_scale \<lparr>model_scale = Fin 2, packageName = None\<rparr>) None
      = Inr ([example_triple_a] @ example_triple_b # [])"
    by code_simp
  have "fst example_mismatch_files = Inr ()"
    by code_simp
  then have h4: "benchmark_files example_calc example_mismatch_world ''m'' ''/tmp/run''
       (Math_min PInf (of_length ([example_triple_a] @ example_triple_b # [])))
       [example_triple_a] \<lparr>ssim_arr = [], psnr_arr = []\<rparr>
      = (Inr (), fst (snd example_mismatch_files), snd (snd example_mismatch_files))"
    by (simp add: example_mismatch_files_def prod_eq_iff)
  have h5: "upscaler example_mismatch_world ''m'' (path (downscaled example_triple_b))"
    by (simp add: example_mismatch_world_def example_world_def)
  have h6: "upscaledSizeOf example_mismatch_world ''m''
        (upscaledPath_of example_mismatch_world ''/tmp/run'' example_triple_b) = Some (Fin 50, Fin 40)"
    by (simp add: example_mismatch_world_def example_world_def upscaledPath_of_def example_triple_b_def)
  have h7: "truthy (Fin 50)" and h8: "truthy (Fin 40)"
    by (simp_all add: truthy_def)
  have h9: "strict_ne (width (original example_triple_b)) (Fin 50)
      \<or> strict_ne (height (original example_triple_b)) (Fin 40)"
    by (simp add: strict_ne_def example_triple_b_def)
  from benchmark_pair_dimension_mismatch [OF h1 h2 h3 h4 h5 h6 h7 h8 h9, where ms = "[''m2'']" and res = "[]"]
  show ?thesis
    by (simp add: example_triple_b_def)
qed

lemma promise_of_Pending:
  "\<forall>ev \<in> set evs. \<not> settles ev \<Longrightarrow> promise_of evs = Pending"
  by (induction evs rule: promise_of.induct) auto

lemma processOriginal_no_settle:
  "processOriginal w scale fp fn d = (r, d', evs) \<Longrightarrow> \<forall>ev \<in> set evs. \<not> settles ev"
  by (auto simp: processOriginal_def eff_simps getSize_def sharp_run_def saveImage_def
        getWritableName_Inr saveDatabase_def getDims_def Let_def
      split: option.splits if_splits prod.splits sum.splits)

lemma processCrop_no_settle:
  "processCrop w scale fn c e d = (r, d', evs) \<Longrightarrow> \<forall>ev \<in> set evs. \<not> settles ev"
  by (auto simp: processCrop_def eff_simps sharp_run_def saveImage_def
        getWritableName_Inr saveDatabase_def getDims_def Let_def
      split: option.splits if_splits prod.splits sum.splits)

lemma prepare_processFile_no_settle:
  assumes "prepare_processFile w scale crp x d = (r, d', evs)"
  shows "\<forall>ev \<in> set evs. \<not> settles ev"
proof -
  obtain fn fp where x: "x = (fn, fp)"
    by (cases x)
  obtain r1 d1 e1 where po: "processOriginal w scale fp fn d = (r1, d1, e1)"
    by (metis prod_cases3)
  note e1 = processOriginal_no_settle [OF po]
  have crop: "\<not> settles ev" if "processCrop w scale fn c e d1 = (r2, d2, e2)" and "ev \<in> set e2"
    for c e r2 d2 e2 ev
    using processCrop_no_settle [OF that(1)] that(2) by blast
  show ?thesis
    using assms po e1 unfolding x
    by (auto simp: prepare_processFile_def eff_simps
          split: option.splits if_splits prod.splits sum.splits dest: crop)
qed

lemma initialize_no_settle:
  assumes "initialize w scale crp d = (r, d', evs)"
  shows "\<forall>ev \<in> set evs. \<not> settles ev"
proof (cases "\<exists>dPath. definitionPath (datasetDefinition d) = Some dPath \<and> dPath \<noteq> []")
  case False
  with assms have "evs = []"
    by (auto simp: initialize_def eff_simps split: option.splits)
  then show ?thesis
    by simp
next
  case True
  then obtain dPath where dp: "definitionPath (datasetDefinition d) = Some dPath" "dPath \<noteq> []"
    by blast
  define files where "files = map (\<lambda>file. (file, path_resolve w [dPath, file])) (getFiles w dPath)"
  define body where "body = (\<lambda>i. [RenderProgressBar (Fin (of_nat i)) (of_length files)])"
  obtain rp dp1 ep where pool:
    "asyncPool (prepare_processFile w scale crp) body 0 files d = (rp, dp1, ep)"
    by (metis prod_cases3)
  have inv: "True \<and> (\<forall>ev \<in> set ep. \<not> settles ev)"
  proof (rule asyncPool_any [where P = "\<lambda>s. True", OF pool])
    fix x s r1 s1 e
    assume "prepare_processFile w scale crp x s = (r1, s1, e)"
    then show "True \<and> (\<forall>ev \<in> set e. \<not> settles ev)"
      using prepare_processFile_no_settle by blast
  next
    fix k ev
    assume "ev \<in> set (body k)"
    then show "\<not> settles ev"
      by (auto simp: body_def)
  qed simp
  from assms dp pool have "\<forall>ev \<in> set evs. ev \<in> set ep \<or> \<not> settles ev"
    by (auto simp: initialize_def prepare_def eff_simps saveDatabase_None files_def body_def Let_def
        split: sum.splits)
  with inv show ?thesis
    by auto
qed

lemma benchmark_processFile_no_settle:
  "benchmark_processFile calc w m uf df t sc = (r, sc', evs) \<Longrightarrow> \<forall>ev \<in> set evs. \<not> settles ev"
  by (auto simp: benchmark_processFile_def eff_simps upscale_def getSize_def calc_run_def Let_def
      split: option.splits if_splits prod.splits sum.splits)

lemma benchmark_files_no_settle:
  assumes "benchmark_files calc w m tmp n files sc = (r, sc', evs)"
  shows "\<forall>ev \<in> set evs. \<not> settles ev"
proof -
  have "True \<and> (\<forall>ev \<in> set evs. \<not> settles ev)"
  proof (rule asyncPool_any [where P = "\<lambda>s. True", OF assms [unfolded benchmark_files_def]])
    fix x s r1 s1 e
    assume "benchmark_processFile calc w m (path_resolve w [tmp, ''upscaled''])
        (path_resolve w [tmp, ''diff'']) x s = (r1, s1, e)"
    then show "True \<and> (\<forall>ev \<in> set e. \<not> settles ev)"
      using benchmark_processFile_no_settle by blast
  next
    fix k ev
    assume "ev \<in> set [RenderProgressBar (Fin (of_nat k)) n]"
    then show "\<not> settles ev"
      by auto
  qed simp
  then show ?thesis
    by simp
qed

lemma benchmark_pair_no_settle:
  assumes "benchmark_pair calc w n tmp crp m d = (r, d', evs)"
  shows "\<forall>ev \<in> set evs. \<not> settles ev"
proof (cases "loadModel w m")
  case (Inl e)
  with assms show ?thesis
    by (auto simp: benchmark_pair_def eff_simps)
next
  case (Inr md)
  obtain r0 d0 e0 where ini: "initialize w (model_scale md) crp d = (r0, d0, e0)"
    by (metis prod_cases3)
  note e0 = initialize_no_settle [OF ini]
  show ?thesis
  proof (cases "\<exists>files. r0 = Inr () \<and> Dataset_getFiles d0 (model_scale md) crp = Inr files")
    case False
    with assms Inr ini e0 show ?thesis
      by (auto simp: benchmark_pair_def eff_simps split: sum.splits)
  next
    case True
    then obtain files where f: "r0 = Inr ()" "Dataset_getFiles d0 (model_scale md) crp = Inr files"
      by blast
    obtain rf scf ef where bf: "benchmark_files calc w m tmp (Math_min n (of_length files)) files
         \<lparr>ssim_arr = [], psnr_arr = []\<rparr> = (rf, scf, ef)"
      by (metis prod_cases3)
    note ef = benchmark_files_no_settle [OF bf]
    from assms Inr ini f bf have "evs = e0 @ [RenderProgressBar (Fin 0) (Math_min n (of_length files))] @ ef"
      by (auto simp: benchmark_pair_def eff_simps Let_def split: sum.splits)
    with e0 ef show ?thesis
      by auto
  qed
qed

lemma benchmark_models_no_settle:
  "benchmark_models calc w n tmp crp ms res d = (r, d', evs) \<Longrightarrow> \<forall>ev \<in> set evs. \<not> settles ev"
proof (induction ms arbitrary: res d r d' evs)
  case Nil
  then show ?case
    by (simp add: eff_simps)
next
  case (Cons m ms)
  obtain rp dp ep where p: "benchmark_pair (calc m) w n tmp crp m d = (rp, dp, ep)"
    by (metis prod_cases3)
  note ep = benchmark_pair_no_settle [OF p]
  show ?case
  proof (cases rp)
    case (Inl e)
    with Cons.prems p ep show ?thesis
      by (auto simp: eff_simps)
  next
    case (Inr a)
    obtain md br where a: "a = (md, br)"
      by (cases a)
    obtain r2 d2 e2 where rest: "benchmark_models calc w n tmp crp ms
        (res @ [(definitionName (datasetDefinition dp), md, br)]) dp = (r2, d2, e2)"
      by (metis prod_cases3)
    from Cons.prems p Inr a rest have "evs = ep @ e2"
      by (auto simp: eff_simps)
    with ep Cons.IH [OF rest] show ?thesis
      by auto
  qed
qed

lemma benchmark_datasets_no_settle:
  "benchmark_datasets calc w n tmp crp ms ds res = (r, ds', evs) \<Longrightarrow> \<forall>ev \<in> set evs. \<not> settles ev"
proof (induction ds arbitrary: res r ds' evs)
  case Nil
  then show ?case
    by simp
next
  case (Cons x ds)
  obtain nm d where x: "x = (nm, d)"
    by (cases x)
  obtain r1 d1 e1 where m: "benchmark_models calc w n tmp crp ms res d = (r1, d1, e1)"
    by (metis prod_cases3)
  note e1 = benchmark_models_no_settle [OF m]
  show ?case
  proof (cases r1)
    case (Inl e)
    with Cons.prems x m e1 show ?thesis
      by auto
  next
    case (Inr res1)
    obtain r2 ds2 e2 where rest: "benchmark_datasets calc w n tmp crp ms ds res1 = (r2, ds2, e2)"
      by (metis prod_cases3)
    from Cons.prems x m Inr rest have "evs = e1 @ e2"
      by auto
    with e1 Cons.IH [OF rest] show ?thesis
      by auto
  qed
qed

lemma Benchmarker_benchmark_no_settle:
  assumes "Benchmarker_benchmark calc w crp b = (r, b', evs)"
  shows "\<forall>ev \<in> set evs. \<not> settles ev"
proof -
  obtain r1 ds1 e1 where d: "benchmark_datasets calc w (this_n b) (tmpDir b) crp (models b) (datasets b) []
      = (r1, ds1, e1)"
    by (metis prod_cases3)
  note e1 = benchmark_datasets_no_settle [OF d]
  from assms d e1 show ?thesis
    by (auto simp: Benchmarker_benchmark_def split: sum.splits)
qed

text \<open>
  C9. The promise that \<open>benchmarkPerformance\<close> returns stays pending: whatever the
  models, the datasets and the options, neither the executor nor the benchmark it
  starts makes a call of \<open>resolve\<close> or \<open>reject\<close>, and the executor returns \<open>foo\<close>.
\<close>

theorem benchmarkPerformance_pending:
  "benchmarkPerformance calc w ms datasetDefinitions n crp = Pending \<and>
   fst (benchmarkPerformance_executor calc w ms datasetDefinitions n crp) = ''foo'' \<and>
   filter settles (snd (benchmarkPerformance_executor calc w ms datasetDefinitions n crp)) = []"
proof -
  define ds where "ds = map (\<lambda>dataset. Dataset_new w dataset) datasetDefinitions"
  define b where "b = fst (Benchmarker_new w ms ds (case n of None \<Rightarrow> PInf | Some k \<Rightarrow> k))"
  obtain r b1 evs1 where run: "Benchmarker_benchmark calc w crp b = (r, b1, evs1)"
    by (metis prod_cases3)
  have ex: "benchmarkPerformance_executor calc w ms datasetDefinitions n crp
      = (''foo'', [MakeTmpDir (makeTmpDir w)] @ cleanup b @ evs1)"
    using run by (simp add: benchmarkPerformance_executor_def Benchmarker_new_def ds_def b_def Let_def)
  have ns: "\<forall>ev \<in> set ([MakeTmpDir (makeTmpDir w)] @ cleanup b @ evs1). \<not> settles ev"
    using Benchmarker_benchmark_no_settle [OF run] by (auto simp: cleanup_def)
  then have "filter settles ([MakeTmpDir (makeTmpDir w)] @ cleanup b @ evs1) = []"
    by (simp only: filter_empty_conv)
  with ex promise_of_Pending [OF ns] show ?thesis
    by (simp add: benchmarkPerformance_def)
qed


theorem benchmarkPerformance_pending_witness:
  "benchmarkPerformance (\<lambda>_. example_calc) example_bench_world [''m'']
     [\<lparr>definitionName = ''ds'', definitionPath = Some ''/img''\<rparr>] None None = Pending"
  using benchmarkPerformance_pending [of "\<lambda>_. example_calc" example_bench_world "[''m'']"
      "[\<lparr>definitionName = ''ds'', definitionPath = Some ''/img''\<rparr>]" None None]
  by simp

end
